theory Spec2Isabelle
  imports Main "HOL-Library.Product_Lexorder" "HOL-Library.Multiset"
begin

section \<open>The ADNI PET pipeline: tables, nearest-date joins, filters and column selection\<close>

text \<open>
  The script \<^verbatim>\<open>adni_pet_pipeline.py\<close> is a sequence of pandas calls. A table is modelled
  as the list of its rows, in table order; a column is the function that reads it off a row.
  A column that may hold a missing value (\<^verbatim>\<open>NaN\<close>, \<^verbatim>\<open>NaT\<close>) has an \<open>option\<close> type, with
  \<open>None\<close> the missing value. A subject key \<^verbatim>\<open>RID\<close> is an \<open>int option\<close>; a date column,
  parsed by \<^verbatim>\<open>pd.to_datetime(..., errors="coerce")\<close>, is an \<open>int option\<close> counting
  nanoseconds since the epoch, as \<^verbatim>\<open>datetime64[ns]\<close> does. The result of a join is the
  list of pairs of a left row and the right row attached to it, \<open>None\<close> when the right-hand
  columns of that row are all missing.

  The join stages are modelled at the level of rows: which right row is attached to which
  left row, and which rows the joined table has. The names pandas gives to the columns of
  a joined table (suffixes, labels repeated in a column selection) are outside the model;
  a column is always read through its accessor. The \<^verbatim>\<open>direction\<close> of every nearest-date
  join is \<^verbatim>\<open>"nearest"\<close>, the only value the script uses. A date is a 64-bit count of
  nanoseconds: the nearest search subtracts dates with wrap-around, the scan-gap column
  raises when a difference leaves 64 bits. A key column read from a file is \<^verbatim>\<open>int64\<close>
  when it has no missing value and \<^verbatim>\<open>float64\<close> when it has one.

  Exceptions raised inside pandas and numpy are values of \<open>pd_error\<close>.
\<close>

datatype pd_error =
    MergeKeysNull     \<comment> \<open>\<^verbatim>\<open>ValueError: Merge keys contain null values on ... side\<close>\<close>
  | KeysNotSorted     \<comment> \<open>\<^verbatim>\<open>ValueError: ... keys must be sorted\<close>\<close>
  | IndexOutOfBounds  \<comment> \<open>\<^verbatim>\<open>IndexError: index ... is out of bounds\<close>\<close>
  | KeyError          \<comment> \<open>\<^verbatim>\<open>KeyError: ... not in index\<close>\<close>
  | LabelNotUnique    \<comment> \<open>\<^verbatim>\<open>ValueError: The column label ... is not unique\<close>\<close>
  | MergeError        \<comment> \<open>\<^verbatim>\<open>MergeError: incompatible merge keys ..., must be the same type\<close>\<close>
  | OverflowError     \<comment> \<open>\<^verbatim>\<open>OverflowError\<close> of a date difference outside 64 bits\<close>
  | DuplicateLabels   \<comment> \<open>\<^verbatim>\<open>ValueError\<close> of a boolean mask with repeated column labels\<close>

subsection \<open>\<^verbatim>\<open>dropna\<close> and \<^verbatim>\<open>sort_values\<close>\<close>

definition isna :: "'v option \<Rightarrow> bool" where
  "isna v = (v = None)"

text \<open>\<^verbatim>\<open>df.dropna(subset=[c1, ..., cn])\<close> drops the rows with a missing value in one of the
  columns named. The subset is given as the list of the columns' null tests.\<close>

definition dropna :: "('a \<Rightarrow> bool) list \<Rightarrow> 'a list \<Rightarrow> 'a list" where
  "dropna nulls df = filter (\<lambda>r. \<not> list_ex (\<lambda>null. null r) nulls) df"

text \<open>\<^verbatim>\<open>df.sort_values([c1, c2])\<close> is a stable sort on the pair of the two columns, with the
  missing values of a column after its other values (\<^verbatim>\<open>na_position="last"\<close>).\<close>

definition na_last :: "int option \<Rightarrow> bool \<times> int" where
  "na_last v = (case v of None \<Rightarrow> (True, 0) | Some x \<Rightarrow> (False, x))"

definition sort_values :: "('a \<Rightarrow> int option) \<Rightarrow> ('a \<Rightarrow> int option) \<Rightarrow> 'a list \<Rightarrow> 'a list" where
  "sort_values c1 c2 df = sort_key (\<lambda>r. (na_last (c1 r), na_last (c2 r))) df"

datatype dtype = Int64 | Float64

definition key_dtype :: "('a \<Rightarrow> int option) \<Rightarrow> 'a list \<Rightarrow> dtype" where
  "key_dtype c df = (if list_ex (\<lambda>r. isna (c r)) df then Float64 else Int64)"

definition wrap_int64 :: "int \<Rightarrow> int" where
  "wrap_int64 x = (x + 9223372036854775808) mod 18446744073709551616 - 9223372036854775808"

subsection \<open>\<^verbatim>\<open>pd.merge_asof(..., by=..., direction="nearest")\<close>\<close>

text \<open>
  pandas first requires the two \<^verbatim>\<open>by\<close> columns to have the same dtype and raises
  \<^verbatim>\<open>MergeError\<close> otherwise. It then requires the \<^verbatim>\<open>on\<close> column of each side to be free of missing values and
  increasing over the whole table (not only inside each \<^verbatim>\<open>by\<close> group), the left side being
  checked first; it raises otherwise. Then, for a left row with group key \<open>k\<close> and time
  \<open>t\<close>, the backward candidate is the last right row of group \<open>k\<close> with time \<open>\<le> t\<close>, the
  forward candidate is the first right row of group \<open>k\<close> with time \<open>\<ge> t\<close>, and the nearest
  search keeps the backward candidate when \<^verbatim>\<open>bdiff <= fdiff\<close> and the forward one otherwise,
  the two differences being 64-bit subtractions that wrap.
  Group keys are compared after factorisation, which gives equal codes to equal keys and
  one code to all missing keys: that is equality on the \<open>option\<close> type.
\<close>

definition is_monotonic_increasing :: "int option list \<Rightarrow> bool" where
  "is_monotonic_increasing vs = (case those vs of None \<Rightarrow> False | Some xs \<Rightarrow> sorted xs)"

definition check_merge_keys :: "int option list \<Rightarrow> pd_error option" where
  "check_merge_keys vs =
     (if is_monotonic_increasing vs then None
      else if list_ex isna vs then Some MergeKeysNull
      else Some KeysNotSorted)"

definition at_or_before :: "int \<Rightarrow> int option \<Rightarrow> bool" where
  "at_or_before t v = (case v of None \<Rightarrow> False | Some u \<Rightarrow> u \<le> t)"

definition at_or_after :: "int \<Rightarrow> int option \<Rightarrow> bool" where
  "at_or_after t v = (case v of None \<Rightarrow> False | Some u \<Rightarrow> t \<le> u)"

definition asof_backward ::
  "('r \<Rightarrow> int option) \<Rightarrow> ('r \<Rightarrow> 'k) \<Rightarrow> 'r list \<Rightarrow> 'k \<Rightarrow> int \<Rightarrow> 'r option" where
  "asof_backward right_on right_by right k t =
     (case filter (\<lambda>r. right_by r = k \<and> at_or_before t (right_on r)) right of
        [] \<Rightarrow> None
      | c # cs \<Rightarrow> Some (last (c # cs)))"

definition asof_forward ::
  "('r \<Rightarrow> int option) \<Rightarrow> ('r \<Rightarrow> 'k) \<Rightarrow> 'r list \<Rightarrow> 'k \<Rightarrow> int \<Rightarrow> 'r option" where
  "asof_forward right_on right_by right k t =
     (case filter (\<lambda>r. right_by r = k \<and> at_or_after t (right_on r)) right of
        [] \<Rightarrow> None
      | c # cs \<Rightarrow> Some c)"

definition asof_nearest ::
  "('r \<Rightarrow> int option) \<Rightarrow> ('r \<Rightarrow> 'k) \<Rightarrow> 'r list \<Rightarrow> 'k \<Rightarrow> int \<Rightarrow> 'r option" where
  "asof_nearest right_on right_by right k t =
     (case (asof_backward right_on right_by right k t,
            asof_forward right_on right_by right k t) of
        (Some b, Some f) \<Rightarrow>
          (case (right_on b, right_on f) of
             (Some tb, Some tf) \<Rightarrow>
               if wrap_int64 (t - tb) \<le> wrap_int64 (tf - t) then Some b else Some f
           | _ \<Rightarrow> Some b)
      | (Some b, None) \<Rightarrow> Some b
      | (None, f) \<Rightarrow> f)"

definition merge_asof ::
  "dtype \<Rightarrow> dtype \<Rightarrow>
   ('l \<Rightarrow> int option) \<Rightarrow> ('r \<Rightarrow> int option) \<Rightarrow> ('l \<Rightarrow> 'k) \<Rightarrow> ('r \<Rightarrow> 'k) \<Rightarrow>
   'l list \<Rightarrow> 'r list \<Rightarrow> pd_error + ('l \<times> 'r option) list" where
  "merge_asof left_by_dtype right_by_dtype left_on right_on left_by right_by left right =
     (if left_by_dtype \<noteq> right_by_dtype then Inl MergeError else
      case check_merge_keys (map left_on left) of
        Some e \<Rightarrow> Inl e
      | None \<Rightarrow>
         (case check_merge_keys (map right_on right) of
            Some e \<Rightarrow> Inl e
          | None \<Rightarrow>
              Inr (map (\<lambda>l. (l, case left_on l of
                                   None \<Rightarrow> None
                                 | Some t \<Rightarrow> asof_nearest right_on right_by right (left_by l) t))
                       left)))"

subsection \<open>The three nearest-date stages of the script\<close>

text \<open>\<^verbatim>\<open>attach_nearest_visit\<close> (lines 17 to 42): both tables lose their rows with a missing
  \<^verbatim>\<open>RID\<close> or date, are sorted by \<^verbatim>\<open>["RID", date]\<close> and are joined by \<^verbatim>\<open>merge_asof\<close>.
  \<open>pet_rid\<close> and \<open>reg_rid\<close> read the \<^verbatim>\<open>RID\<close> column of the two tables. The right table of
  the join is the selection \<^verbatim>\<open>reg[["RID", reg_date_col, *keep_reg_cols]]\<close>: when
  \<^verbatim>\<open>keep_reg_cols\<close> repeats the label of the date column or \<^verbatim>\<open>"RID"\<close>, the selection has
  two columns of that label and \<^verbatim>\<open>merge_asof\<close> raises on its key. The defaults,
  \<^verbatim>\<open>reg_date_col="EXAMDATE"\<close> and \<^verbatim>\<open>keep_reg_cols=("VISCODE","VISCODE2","EXAMDATE")\<close>, with
  which the script calls the function at lines 104 and 165, repeat \<^verbatim>\<open>EXAMDATE\<close>. The
  dtype of a key column is that of the table passed in: \<^verbatim>\<open>dropna\<close> does not change it.\<close>

definition attach_nearest_visit ::
  "string \<Rightarrow> string list \<Rightarrow>
   ('p \<Rightarrow> int option) \<Rightarrow> ('v \<Rightarrow> int option) \<Rightarrow> ('p \<Rightarrow> int option) \<Rightarrow> ('v \<Rightarrow> int option) \<Rightarrow>
   'p list \<Rightarrow> 'v list \<Rightarrow> pd_error + ('p \<times> 'v option) list" where
  "attach_nearest_visit reg_date_label keep_reg_cols pet_rid reg_rid pet_date_col reg_date_col
       pet_df registry_df =
     (let pet = dropna [isna \<circ> pet_rid, isna \<circ> pet_date_col] pet_df;
          reg = dropna [isna \<circ> reg_rid, isna \<circ> reg_date_col] registry_df;
          pet = sort_values pet_rid pet_date_col pet;
          reg = sort_values reg_rid reg_date_col reg
      in if reg_date_label \<in> set keep_reg_cols \<or> ''RID'' \<in> set keep_reg_cols
         then Inl LabelNotUnique
         else merge_asof (key_dtype pet_rid pet_df) (key_dtype reg_rid registry_df)
                pet_date_col reg_date_col pet_rid reg_rid pet reg)"

text \<open>Lines 125 to 133 (tau to \<^verbatim>\<open>ADNIMERGE\<close>) and lines 186 to 194 (tau to amyloid): the two
  tables are sorted by \<^verbatim>\<open>["RID", date]\<close> and joined, with no \<^verbatim>\<open>dropna\<close> before.\<close>

definition tau_adni ::
  "('t \<Rightarrow> int option) \<Rightarrow> ('a \<Rightarrow> int option) \<Rightarrow> ('t \<Rightarrow> int option) \<Rightarrow> ('a \<Rightarrow> int option) \<Rightarrow>
   't list \<Rightarrow> 'a list \<Rightarrow> pd_error + ('t \<times> 'a option) list" where
  "tau_adni tau_rid adni_rid SCANDATE EXAMDATE tau_merged adni2 =
     merge_asof (key_dtype tau_rid tau_merged) (key_dtype adni_rid adni2)
       SCANDATE EXAMDATE tau_rid adni_rid
       (sort_values tau_rid SCANDATE tau_merged) (sort_values adni_rid EXAMDATE adni2)"

definition tau_amy ::
  "('t \<Rightarrow> int option) \<Rightarrow> ('m \<Rightarrow> int option) \<Rightarrow> ('t \<Rightarrow> int option) \<Rightarrow> ('m \<Rightarrow> int option) \<Rightarrow>
   't list \<Rightarrow> 'm list \<Rightarrow> pd_error + ('t \<times> 'm option) list" where
  "tau_amy tau_rid amy_rid SCANDATE_TAU SCANDATE_AMY tau_adni_df amy_merged =
     merge_asof (key_dtype tau_rid tau_adni_df) (key_dtype amy_rid amy_merged)
       SCANDATE_TAU SCANDATE_AMY tau_rid amy_rid
       (sort_values tau_rid SCANDATE_TAU tau_adni_df) (sort_values amy_rid SCANDATE_AMY amy_merged)"


subsection \<open>The scan-gap gate (lines 196 and 197)\<close>

text \<open>\<^verbatim>\<open>(tau_amy["SCANDATE_AMY"] - tau_amy["SCANDATE_TAU"]).dt.days\<close>: the difference of two
  dates is a number of nanoseconds, and \<^verbatim>\<open>.dt.days\<close> is its number of whole days, rounded
  towards minus infinity. It is missing when one of the two dates is, as is the amyloid
  date of a tau row with no amyloid row attached. The comparison \<^verbatim>\<open>abs() < 365\<close> is false on
  a missing value, so such a row is dropped. The subtraction is on 64-bit counts over the
  whole column and raises \<^verbatim>\<open>OverflowError\<close> when one difference does not fit; then no table
  is produced.\<close>

definition ns_per_day :: int where
  "ns_per_day = 86400000000000"

definition in_int64 :: "int \<Rightarrow> bool" where
  "in_int64 x = (- 9223372036854775808 < x \<and> x < 9223372036854775808)"

definition AMY_TAU_SCANDIFF_DAYS ::
  "('t \<Rightarrow> int option) \<Rightarrow> ('m \<Rightarrow> int option) \<Rightarrow> 't \<times> 'm option \<Rightarrow> pd_error + int option" where
  "AMY_TAU_SCANDIFF_DAYS SCANDATE_TAU SCANDATE_AMY row =
     (case snd row of
        None \<Rightarrow> Inr None
      | Some a \<Rightarrow>
         (case (SCANDATE_AMY a, SCANDATE_TAU (fst row)) of
            (Some d, Some t) \<Rightarrow>
              if in_int64 (d - t) then Inr (Some ((d - t) div ns_per_day)) else Inl OverflowError
          | _ \<Rightarrow> Inr None))"

definition tau_amy_scandiff_filter ::
  "('t \<Rightarrow> int option) \<Rightarrow> ('m \<Rightarrow> int option) \<Rightarrow> ('t \<times> 'm option) list \<Rightarrow>
   pd_error + ('t \<times> 'm option) list" where
  "tau_amy_scandiff_filter SCANDATE_TAU SCANDATE_AMY tau_amy_df =
     (if list_ex (\<lambda>row. AMY_TAU_SCANDIFF_DAYS SCANDATE_TAU SCANDATE_AMY row = Inl OverflowError)
           tau_amy_df
      then Inl OverflowError
      else Inr (filter (\<lambda>row. case AMY_TAU_SCANDIFF_DAYS SCANDATE_TAU SCANDATE_AMY row of
                               Inr (Some gap_days) \<Rightarrow> \<bar>gap_days\<bar> < 365
                             | _ \<Rightarrow> False) tau_amy_df))"

subsection \<open>\<^verbatim>\<open>add_apoe4_status\<close> (lines 52 to 58)\<close>

text \<open>\<^verbatim>\<open>drop_duplicates(subset=[key], keep="last")\<close> keeps a row when no later row has its
  key, in table order; missing keys count as equal to one another. The genotype column
  is then looked up in the six-entry dictionary, a genotype that is missing or is not a
  key giving a missing \<^verbatim>\<open>APOE4\<close>. The scores \<^verbatim>\<open>0.0\<close>, \<^verbatim>\<open>1.0\<close>, \<^verbatim>\<open>2.0\<close> of the
  \<^verbatim>\<open>float64\<close> column are the integers 0, 1, 2.\<close>

fun drop_duplicates_last :: "('a \<Rightarrow> 'k) \<Rightarrow> 'a list \<Rightarrow> 'a list" where
  "drop_duplicates_last key [] = []"
| "drop_duplicates_last key (x # xs) =
     (if key x \<in> set (map key xs) then drop_duplicates_last key xs
      else x # drop_duplicates_last key xs)"

definition mapping :: "(string \<times> int) list" where
  "mapping = [(''2/2'', 0), (''2/3'', 0), (''3/3'', 0), (''2/4'', 1), (''3/4'', 1), (''4/4'', 2)]"

definition add_apoe4_status ::
  "('g \<Rightarrow> int option) \<Rightarrow> ('g \<Rightarrow> string option) \<Rightarrow> 'g list \<Rightarrow> (int option \<times> int option) list" where
  "add_apoe4_status rid genotype_col apoe_df =
     (let apoe = drop_duplicates_last rid apoe_df
      in map (\<lambda>r. (rid r, case genotype_col r of None \<Rightarrow> None | Some g \<Rightarrow> map_of mapping g)) apoe)"

subsection \<open>\<^verbatim>\<open>filter_pet_qc\<close> (lines 44 to 50)\<close>

text \<open>Here the table carries its schema: the list of its column names, and rows that are
  lists of cells in column order. A cell is missing, an integer (a cell of an \<^verbatim>\<open>int64\<close>
  column, or a Python \<^verbatim>\<open>int\<close>), a \<^verbatim>\<open>float64\<close> number with an integer value, or a string;
  floats with a fractional part are not represented. \<open>float64 n\<close> is the \<^verbatim>\<open>float64\<close>
  nearest to the integer \<open>n\<close>, ties to even (53 bits of precision; the exponent range
  is not modelled).\<close>

datatype cell = NaN | Num int | Flt int | Str string

record frame =
  columns :: "string list"
  rows :: "cell list list"

definition cell_of :: "string list \<Rightarrow> cell list \<Rightarrow> string \<Rightarrow> cell" where
  "cell_of cols r c = (case map_of (zip cols r) c of None \<Rightarrow> NaN | Some v \<Rightarrow> v)"

fun bit_length :: "nat \<Rightarrow> nat" where
  "bit_length n = (if n = 0 then 0 else Suc (bit_length (n div 2)))"

declare bit_length.simps [simp del]

definition float64 :: "int \<Rightarrow> int" where
  "float64 n =
     (let a = nat \<bar>n\<bar>; e = bit_length a - 53; q = a div 2 ^ e; r = a mod 2 ^ e;
          m = (if 2 * r < 2 ^ e \<or> (2 * r = 2 ^ e \<and> even q) then q else q + 1)
      in sgn n * int (m * 2 ^ e))"

text \<open>\<^verbatim>\<open>df[c] == v\<close>, cell by cell: false on a missing cell; an integer and a float are
  compared as floats. \<^verbatim>\<open>isin\<close> is membership in the list, a missing cell being a member
  of a list that holds a missing value.\<close>

fun cell_eq :: "cell \<Rightarrow> cell \<Rightarrow> bool" where
  "cell_eq (Num x) (Num y) = (x = y)"
| "cell_eq (Flt x) (Flt y) = (x = y)"
| "cell_eq (Flt x) (Num y) = (x = float64 y)"
| "cell_eq (Num x) (Flt y) = (float64 x = y)"
| "cell_eq (Str x) (Str y) = (x = y)"
| "cell_eq _ _ = False"

definition isin :: "cell \<Rightarrow> cell list \<Rightarrow> bool" where
  "isin c vs = (if c = NaN then NaN \<in> set vs else list_ex (cell_eq c) vs)"

text \<open>A boolean mask built from a label that names two columns of the table is a table,
  not a column, and indexing with it raises. \<^verbatim>\<open>exclude_tracers\<close> is \<^verbatim>\<open>None\<close> or a list,
  and counts as true only when it is a non-empty list.\<close>

definition repeated :: "string \<Rightarrow> string list \<Rightarrow> bool" where
  "repeated label cols = (1 < length (filter (\<lambda>c. c = label) cols))"

definition filter_pet_qc ::
  "frame \<Rightarrow> string \<Rightarrow> cell \<Rightarrow> string \<Rightarrow> cell list option \<Rightarrow> pd_error + frame" where
  "filter_pet_qc pet_df qc_col qc_pass tracer_col exclude_tracers =
     (case (if qc_col \<in> set (columns pet_df)
            then if repeated qc_col (columns pet_df) then Inl DuplicateLabels
                 else Inr (pet_df\<lparr>rows :=
                        filter (\<lambda>r. cell_eq (cell_of (columns pet_df) r qc_col) qc_pass)
                          (rows pet_df)\<rparr>)
            else Inr pet_df) of
        Inl err \<Rightarrow> Inl err
      | Inr df \<Rightarrow>
         (case exclude_tracers of
            Some (e # es) \<Rightarrow>
              if tracer_col \<in> set (columns df)
              then if repeated tracer_col (columns df) then Inl DuplicateLabels
                   else Inr (df\<lparr>rows :=
                          filter (\<lambda>r. \<not> isin (cell_of (columns df) r tracer_col) (e # es))
                            (rows df)\<rparr>)
              else Inr df
          | _ \<Rightarrow> Inr df))"

text \<open>The rule of the specification: a record is retained iff the quality field is absent
  from the schema or its value equals the pass value exactly, and, where the category
  field exists and an exclusion list is supplied, its category is not in the list.
  Two cells have the same value when they hold the same number or the same string.\<close>

fun same_value :: "cell \<Rightarrow> cell \<Rightarrow> bool" where
  "same_value (Num x) (Num y) = (x = y)"
| "same_value (Flt x) (Flt y) = (x = y)"
| "same_value (Flt x) (Num y) = (x = y)"
| "same_value (Num x) (Flt y) = (x = y)"
| "same_value (Str x) (Str y) = (x = y)"
| "same_value _ _ = False"

definition qc_retained ::
  "string list \<Rightarrow> string \<Rightarrow> cell \<Rightarrow> string \<Rightarrow> cell list option \<Rightarrow> cell list \<Rightarrow> bool" where
  "qc_retained cols qc_field qc_pass_value category_field excluded_categories r =
     ((qc_field \<notin> set cols \<or> same_value (cell_of cols r qc_field) qc_pass_value) \<and>
      \<not> (category_field \<in> set cols \<and>
         (case excluded_categories of None \<Rightarrow> False
          | Some cats \<Rightarrow>
              (if cell_of cols r category_field = NaN then NaN \<in> set cats
               else list_ex (same_value (cell_of cols r category_field)) cats))))"

text \<open>An integer cell below \<open>2 ^ 53\<close> in absolute value is a \<^verbatim>\<open>float64\<close> as it is.\<close>

definition exact_cell :: "cell \<Rightarrow> bool" where
  "exact_cell c = (case c of Num x \<Rightarrow> \<bar>x\<bar> < 9007199254740992 | _ \<Rightarrow> True)"

subsection \<open>Exact-key merges (lines 87 to 92 and 150 to 155)\<close>

text \<open>\<^verbatim>\<open>left.merge(right, on=keys, how="left")\<close>: every left row, in order, is paired with each
  right row that has the same key values, in the order of the right table, and with
  nothing when there is none. Missing key values are equal to one another.\<close>

definition merge_left :: "('l \<Rightarrow> 'k) \<Rightarrow> ('r \<Rightarrow> 'k) \<Rightarrow> 'l list \<Rightarrow> 'r list \<Rightarrow> ('l \<times> 'r option) list" where
  "merge_left left_key right_key left right =
     concat (map (\<lambda>l. case filter (\<lambda>r. right_key r = left_key l) right of
                         [] \<Rightarrow> [(l, None)]
                       | m # ms \<Rightarrow> map (\<lambda>r. (l, Some r)) (m # ms)) left)"

text \<open>\<^verbatim>\<open>tau = taumeta.merge(tau_qc_keep, on=["RID","VISCODE"], how="left", ...)\<close> and
  \<^verbatim>\<open>amy = amy_meta.merge(amy_qc[[...]], on="RID", how="left", ...)\<close>.\<close>

definition tau ::
  "('m \<Rightarrow> int option) \<Rightarrow> ('m \<Rightarrow> string option) \<Rightarrow> ('q \<Rightarrow> int option) \<Rightarrow> ('q \<Rightarrow> string option) \<Rightarrow>
   'm list \<Rightarrow> 'q list \<Rightarrow> ('m \<times> 'q option) list" where
  "tau meta_rid meta_viscode qc_rid qc_viscode taumeta tau_qc_keep =
     merge_left (\<lambda>m. (meta_rid m, meta_viscode m)) (\<lambda>q. (qc_rid q, qc_viscode q)) taumeta tau_qc_keep"

definition amy ::
  "('m \<Rightarrow> int option) \<Rightarrow> ('q \<Rightarrow> int option) \<Rightarrow> 'm list \<Rightarrow> 'q list \<Rightarrow> ('m \<times> 'q option) list" where
  "amy meta_rid qc_rid amy_meta amy_qc = merge_left meta_rid qc_rid amy_meta amy_qc"

subsection \<open>From the tau table to the rows of the final table (lines 125 to 197)\<close>

text \<open>The rows of \<^verbatim>\<open>tau_amy_cortical\<close> are those of \<^verbatim>\<open>tau_amy\<close> after the gap filter; the
  column selection of lines 202 to 213 does not touch rows. A row of the final table is
  a tau row with the \<^verbatim>\<open>ADNIMERGE\<close> row, the genotype row and the amyloid row attached to
  it. Its \<^verbatim>\<open>DX\<close> is that of the \<^verbatim>\<open>ADNIMERGE\<close> row and its \<^verbatim>\<open>APOE4\<close> that of the genotype row,
  both missing when no row is attached. \<^verbatim>\<open>AGE_AT_SCAN\<close> (line 143) adds a column and is
  left out.\<close>

definition DX_of :: "('a \<Rightarrow> string option) \<Rightarrow> 't \<times> 'a option \<Rightarrow> string option" where
  "DX_of DX row = (case snd row of None \<Rightarrow> None | Some a \<Rightarrow> DX a)"

definition APOE4_of :: "'x \<times> (int option \<times> int option) option \<Rightarrow> int option" where
  "APOE4_of row = (case snd row of None \<Rightarrow> None | Some g \<Rightarrow> snd g)"

definition tau_amy_cortical_rows ::
  "('t \<Rightarrow> int option) \<Rightarrow> ('t \<Rightarrow> int option) \<Rightarrow>
   ('a \<Rightarrow> int option) \<Rightarrow> ('a \<Rightarrow> int option) \<Rightarrow> ('a \<Rightarrow> string option) \<Rightarrow>
   ('g \<Rightarrow> int option) \<Rightarrow> ('g \<Rightarrow> string option) \<Rightarrow>
   ('m \<Rightarrow> int option) \<Rightarrow> ('m \<Rightarrow> int option) \<Rightarrow>
   't list \<Rightarrow> 'a list \<Rightarrow> 'g list \<Rightarrow> 'm list \<Rightarrow>
   pd_error + ((('t \<times> 'a option) \<times> (int option \<times> int option) option) \<times> 'm option) list" where
  "tau_amy_cortical_rows tau_rid SCANDATE adni_rid EXAMDATE DX apoe_rid GENOTYPE amy_rid SCANDATE_AMY
       tau_merged adni2 apoe_raw amy_merged =
     (case tau_adni tau_rid adni_rid SCANDATE EXAMDATE tau_merged adni2 of
        Inl e \<Rightarrow> Inl e
      | Inr tau_adni_df \<Rightarrow>
         (let apoe = add_apoe4_status apoe_rid GENOTYPE apoe_raw;
              tau_adni_df = merge_left (tau_rid \<circ> fst) fst tau_adni_df apoe;
              tau_adni_df = dropna [isna \<circ> APOE4_of, isna \<circ> DX_of DX \<circ> fst] tau_adni_df
          in case tau_amy (tau_rid \<circ> fst \<circ> fst) amy_rid (SCANDATE \<circ> fst \<circ> fst) SCANDATE_AMY
                    tau_adni_df amy_merged of
               Inl e \<Rightarrow> Inl e
             | Inr tau_amy_df \<Rightarrow>
                 tau_amy_scandiff_filter (SCANDATE \<circ> fst \<circ> fst) SCANDATE_AMY tau_amy_df))"

subsection \<open>Region columns of the final table (lines 202 to 213)\<close>

text \<open>A catalog label is normalised by \<^verbatim>\<open>str.replace("-", "_")\<close>, \<^verbatim>\<open>str.upper()\<close> and the
  suffix \<^verbatim>\<open>"_SUVR"\<close>. The labels are ASCII: \<open>upper_char\<close> maps the 26 lower-case letters
  to upper case and leaves every other character alone.\<close>

definition upper_char :: "char \<Rightarrow> char" where
  "upper_char c =
     (case map_of (zip ''abcdefghijklmnopqrstuvwxyz'' ''ABCDEFGHIJKLMNOPQRSTUVWXYZ'') c of
        None \<Rightarrow> c
      | Some u \<Rightarrow> u)"

definition FS_LABEL :: "string \<Rightarrow> string" where
  "FS_LABEL raw = map upper_char (map (\<lambda>c. if c = CHR ''-'' then CHR ''_'' else c) raw) @ ''_SUVR''"

definition subcortical_idx :: "nat list" where
  "subcortical_idx = [34, 35, 36, 37, 38, 39, 40, 41, 42, 43, 44, 45, 46, 47, 48, 83]"

text \<open>\<^verbatim>\<open>np.delete(arr, obj)\<close> returns the array without the elements at the positions in
  \<open>obj\<close>, and raises \<^verbatim>\<open>IndexError\<close> when a position is out of bounds.\<close>

definition np_delete :: "'a list \<Rightarrow> nat list \<Rightarrow> pd_error + 'a list" where
  "np_delete arr obj =
     (if list_ex (\<lambda>i. length arr \<le> i) obj then Inl IndexOutOfBounds
      else Inr (map snd (filter (\<lambda>(i, x). i \<notin> set obj) (enumerate 0 arr))))"

text \<open>\<^verbatim>\<open>c.endswith(suffix)\<close>, and the two column lists of lines 210 and 212.\<close>

definition endswith :: "string \<Rightarrow> string \<Rightarrow> bool" where
  "endswith s suffix = (length suffix \<le> length s \<and> drop (length s - length suffix) s = suffix)"

definition suvr_cols_ordered :: "string list \<Rightarrow> string list \<Rightarrow> pd_error + string list" where
  "suvr_cols_ordered fs_region tau_amy_columns =
     (case np_delete (map FS_LABEL fs_region) subcortical_idx of
        Inl e \<Rightarrow> Inl e
      | Inr ordered \<Rightarrow> Inr (filter (\<lambda>c. c \<in> set tau_amy_columns) ordered))"

definition non_suvr_cols :: "string list \<Rightarrow> string list" where
  "non_suvr_cols tau_amy_columns = filter (\<lambda>c. \<not> endswith c ''_SUVR'') tau_amy_columns"

text \<open>\<^verbatim>\<open>df[labels]\<close> with a list of labels: every label selects all the columns of that
  name, in table order, and a label that names no column raises \<^verbatim>\<open>KeyError\<close>. The new
  table has the selected columns in the order of the labels, with their cells. A row has
  one cell for each column.\<close>

definition get_indexer :: "string list \<Rightarrow> string \<Rightarrow> nat list" where
  "get_indexer cols label = filter (\<lambda>i. cols ! i = label) [0..<length cols]"

definition getitem :: "frame \<Rightarrow> string list \<Rightarrow> pd_error + frame" where
  "getitem df labels =
     (if list_ex (\<lambda>l. l \<notin> set (columns df)) labels then Inl KeyError
      else let idx = concat (map (get_indexer (columns df)) labels)
           in Inr \<lparr>columns = map (\<lambda>i. columns df ! i) idx,
                   rows = map (\<lambda>r. map (\<lambda>i. if i < length r then r ! i else NaN) idx) (rows df)\<rparr>)"

text \<open>\<^verbatim>\<open>tau_amy_cortical = tau_amy[non_suvr_cols + suvr_cols_ordered]\<close>.\<close>

definition tau_amy_cortical :: "string list \<Rightarrow> frame \<Rightarrow> pd_error + frame" where
  "tau_amy_cortical fs_region tau_amy_df =
     (case suvr_cols_ordered fs_region (columns tau_amy_df) of
        Inl e \<Rightarrow> Inl e
      | Inr s \<Rightarrow> getitem tau_amy_df (non_suvr_cols (columns tau_amy_df) @ s))"

text \<open>The ordering of the specification: the catalog entries, in catalog order, without
  those at a subcortical position and without those that name no column of the table.\<close>

definition catalog_region_columns :: "string list \<Rightarrow> nat list \<Rightarrow> string list \<Rightarrow> string list" where
  "catalog_region_columns catalog subcortical cols =
     map (\<lambda>i. catalog ! i)
       (filter (\<lambda>i. i \<notin> set subcortical \<and> catalog ! i \<in> set cols) [0..<length catalog])"


subsection \<open>An order on rows used in the proofs\<close>


text \<open>A date within \<open>2 ^ 62\<close> nanoseconds of the epoch, that is between the years 1823 and
  2116: the difference of two such dates fits in 64 bits. A missing date is in range.\<close>

definition date_in_range :: "int option \<Rightarrow> bool" where
  "date_in_range v = (case v of None \<Rightarrow> True
      | Some d \<Rightarrow> - 4611686018427387904 \<le> d \<and> d < 4611686018427387904)"

text \<open>The rows \<open>filter_pet_qc\<close> keeps and the tables on which it raises, in one formula
  each.\<close>

definition qc_kept ::
  "string list \<Rightarrow> string \<Rightarrow> cell \<Rightarrow> string \<Rightarrow> cell list option \<Rightarrow> cell list \<Rightarrow> bool" where
  "qc_kept cols q p t e r =
     ((q \<in> set cols \<longrightarrow> cell_eq (cell_of cols r q) p) \<and>
      (case e of Some (x # xs) \<Rightarrow> t \<in> set cols \<longrightarrow> \<not> isin (cell_of cols r t) (x # xs)
       | _ \<Rightarrow> True))"

definition labels_clash :: "string list \<Rightarrow> string \<Rightarrow> string \<Rightarrow> cell list option \<Rightarrow> bool" where
  "labels_clash cols q t e =
     ((q \<in> set cols \<and> repeated q cols) \<or>
      (case e of Some (x # xs) \<Rightarrow> t \<in> set cols \<and> repeated t cols | _ \<Rightarrow> False))"

section \<open>Properties of the nearest-date stages\<close>

subsection \<open>Auxiliary facts about \<open>merge_asof\<close>\<close>




lemma merge_asof_Inr:
  "merge_asof dl dr lo ro lb rb left right = Inr out \<longleftrightarrow>
     dl = dr \<and> check_merge_keys (map lo left) = None \<and> check_merge_keys (map ro right) = None \<and>
     out = map (\<lambda>l. (l, case lo l of None \<Rightarrow> None
                          | Some t \<Rightarrow> asof_nearest ro rb right (lb l) t)) left"
  by (auto simp: merge_asof_def split: option.splits)

lemma asof_backward_Some:
  "asof_backward ro rb rs k t = Some b \<Longrightarrow> b \<in> set rs \<and> rb b = k \<and> at_or_before t (ro b)"
proof -
  assume a: "asof_backward ro rb rs k t = Some b"
  let ?F = "filter (\<lambda>r. rb r = k \<and> at_or_before t (ro r)) rs"
  from a have ne: "?F \<noteq> []" and b: "b = last ?F"
    by (auto simp: asof_backward_def split: list.splits)
  then have "b \<in> set ?F" using last_in_set by blast
  then show ?thesis by simp
qed

lemma asof_forward_Some:
  "asof_forward ro rb rs k t = Some f \<Longrightarrow> f \<in> set rs \<and> rb f = k \<and> at_or_after t (ro f)"
proof -
  assume a: "asof_forward ro rb rs k t = Some f"
  let ?F = "filter (\<lambda>r. rb r = k \<and> at_or_after t (ro r)) rs"
  from a obtain cs where "?F = f # cs"
    by (auto simp: asof_forward_def split: list.splits)
  then have "f \<in> set ?F" by simp
  then show ?thesis by simp
qed

lemma asof_nearest_Some:
  "asof_nearest ro rb rs k t = Some r \<Longrightarrow> r \<in> set rs \<and> rb r = k"
  by (auto simp: asof_nearest_def split: option.splits if_splits
           dest: asof_backward_Some asof_forward_Some)

lemma merge_asof_same_key:
  assumes "merge_asof dl dr lo ro lb rb left right = Inr out" and "(l, Some r) \<in> set out"
  shows "rb r = lb l \<and> r \<in> set right \<and> l \<in> set left"
  using assms by (auto simp: merge_asof_Inr split: option.splits dest: asof_nearest_Some [OF sym])











lemma merge_asof_left_rows:
  "merge_asof dl dr lo ro lb rb left right = Inr out \<Longrightarrow> map fst out = left"
  by (simp add: merge_asof_Inr comp_def)


lemma set_sort_values: "set (sort_values c1 c2 df) = set df"
  by (simp add: sort_values_def)

lemma set_dropna2:
  "set (dropna [isna \<circ> c1, isna \<circ> c2] df) = {r \<in> set df. c1 r \<noteq> None \<and> c2 r \<noteq> None}"
  by (auto simp: dropna_def isna_def)

lemma stage_cases:
  assumes "attach_nearest_visit lbl keep lrid rrid lon ron left right = Inr out \<or>
           tau_adni lrid rrid lon ron left right = Inr out \<or>
           tau_amy lrid rrid lon ron left right = Inr out"
  obtains (dropped) "merge_asof (key_dtype lrid left) (key_dtype rrid right) lon ron lrid rrid
                       (sort_values lrid lon (dropna [isna \<circ> lrid, isna \<circ> lon] left))
                       (sort_values rrid ron (dropna [isna \<circ> rrid, isna \<circ> ron] right)) = Inr out"
        | (kept) "merge_asof (key_dtype lrid left) (key_dtype rrid right) lon ron lrid rrid
                       (sort_values lrid lon left) (sort_values rrid ron right) = Inr out"
  using assms
  by (auto simp: attach_nearest_visit_def tau_adni_def tau_amy_def Let_def split: if_splits)

lemma attach_nearest_visit_defaults_raise:
  "attach_nearest_visit ''EXAMDATE'' [''VISCODE'', ''VISCODE2'', ''EXAMDATE'']
     pet_rid reg_rid pet_date_col reg_date_col pet_df registry_df = Inl LabelNotUnique"
  by (simp add: attach_nearest_visit_def Let_def)

subsection \<open>Subject scoping\<close>

text \<open>
  Claim C1. In each of the three nearest-date stages (scan to visit registry, scan to
  clinical assessment, tau to amyloid), whenever the stage returns a table, a left row is
  only ever paired with a right row that carries the same subject key: no record of a
  subject \<open>S1\<close> is matched to a record of a subject \<open>S2 \<noteq> S1\<close>, however close in time.
  A stage that raises matches nothing; \<open>attach_nearest_visit\<close> with the defaults of the
  script always does (\<open>attach_nearest_visit_defaults_raise\<close>).
\<close>

theorem subject_scoping:
  assumes "attach_nearest_visit lbl keep lrid rrid lon ron left right = Inr out \<or>
           tau_adni lrid rrid lon ron left right = Inr out \<or>
           tau_amy lrid rrid lon ron left right = Inr out"
      and "(l, Some r) \<in> set out"
  shows "rrid r = lrid l \<and> l \<in> set left \<and> r \<in> set right"
  using assms(1)
proof (cases rule: stage_cases)
  case dropped
  from merge_asof_same_key [OF dropped assms(2)] show ?thesis
    by (simp add: set_sort_values set_dropna2)
next
  case kept
  from merge_asof_same_key [OF kept assms(2)] show ?thesis
    by (simp add: set_sort_values)
qed

theorem subject_scoping_witness:
  "tau_adni fst fst snd snd
     [(Some (1::int), Some (10::int)), (Some 2, Some 30)]
     [(Some (1::int), Some (1::int)), (Some 2, Some 11)]
     = Inr [((Some 1, Some 10), Some (Some 1, Some 1)), ((Some 2, Some 30), Some (Some 2, Some 11))] \<and>
   fst (Some (1::int), Some (1::int)) = fst (Some (1::int), Some (10::int)) \<and>
   (Some (1::int), Some (10::int)) \<in> set [(Some (1::int), Some (10::int)), (Some 2, Some 30)] \<and>
   (Some (1::int), Some (1::int)) \<in> set [(Some (1::int), Some (1::int)), (Some 2, Some 11)]"
proof -
  have h: "tau_adni fst fst snd snd
     [(Some (1::int), Some (10::int)), (Some 2, Some 30)]
     [(Some (1::int), Some (1::int)), (Some 2, Some 11)]
     = Inr [((Some 1, Some 10), Some (Some 1, Some 1)), ((Some 2, Some 30), Some (Some 2, Some 11))]"
    by code_simp
  have r: "((Some (1::int), Some (10::int)), Some (Some (1::int), Some (1::int)))
     \<in> set [((Some 1, Some 10), Some (Some 1, Some 1)), ((Some 2, Some 30), Some (Some 2, Some 11))]"
    by simp
  from subject_scoping [OF disjI2 [OF disjI1 [OF h]] r] h show ?thesis by blast
qed

subsection \<open>Nearest candidate, the earlier one on a tie\<close>




subsection \<open>Rows of the joined table\<close>

lemma attach_nearest_visit_left_rows:
  assumes "attach_nearest_visit lbl keep pet_rid reg_rid pet_date_col reg_date_col pet_df registry_df
             = Inr out"
  shows "map fst out =
           sort_values pet_rid pet_date_col (dropna [isna \<circ> pet_rid, isna \<circ> pet_date_col] pet_df)"
  using assms
  by (auto simp: attach_nearest_visit_def Let_def merge_asof_left_rows split: if_splits)

lemma merge_asof_no_candidate:
  assumes "merge_asof dl dr lo ro lb rb left right = Inr out" and "(l, x) \<in> set out"
      and "\<forall>r \<in> set right. rb r \<noteq> lb l"
  shows "x = None"
proof (cases x)
  case None
  then show ?thesis .
next
  case (Some r)
  with assms(1,2) have "rb r = lb l \<and> r \<in> set right \<and> l \<in> set left"
    using merge_asof_same_key by fastforce
  with assms(3) show ?thesis by blast
qed

text \<open>
  Claim C3. Left-outer matching in every nearest-date stage: left rows with a missing
  subject key or date are dropped before matching, and every other left row appears once
  in the joined table, with no right row when its subject has none.
  \<open>attach_nearest_visit\<close> drops the rows, and when it returns, its joined table has the
  surviving rows as its left parts (\<open>attach_nearest_visit_left_rows\<close>), a row without
  candidate having no right part (\<open>merge_asof_no_candidate\<close>). The stage of lines 125 to
  133 has no \<^verbatim>\<open>dropna\<close>: a tau row with a missing scan date reaches \<^verbatim>\<open>merge_asof\<close>,
  which raises, and no table is produced. Also, every stage sorts by \<^verbatim>\<open>["RID", date]\<close>,
  and \<^verbatim>\<open>merge_asof\<close> raises when the dates of two subjects are then not increasing over
  the whole table; with the defaults of the script, \<open>attach_nearest_visit\<close> raises on the
  repeated \<^verbatim>\<open>EXAMDATE\<close> label before that. The theorem evaluates the code at an input of
  each kind.
\<close>

theorem tau_adni_missing_date_raises:
  "tau_adni fst fst snd snd [(Some (1::int), None)] ([] :: (int option \<times> int option) list)
     = Inl MergeKeysNull \<and>
   attach_nearest_visit ''EXAMDATE'' [''VISCODE'', ''VISCODE2''] fst fst snd snd
     [(Some (1::int), Some (20::int)), (Some 2, Some 10)]
     ([] :: (int option \<times> int option) list) = Inl KeysNotSorted \<and>
   tau_adni fst fst snd snd [(Some (1::int), Some (20::int)), (Some 2, Some 10)]
     ([] :: (int option \<times> int option) list) = Inl KeysNotSorted \<and>
   attach_nearest_visit ''EXAMDATE'' [''VISCODE'', ''VISCODE2'', ''EXAMDATE''] fst fst snd snd
     [(Some (1::int), Some (20::int)), (Some 2, Some 10)]
     ([] :: (int option \<times> int option) list) = Inl LabelNotUnique"
  by code_simp

section \<open>The scan-gap gate\<close>

text \<open>
  Claim C4. The gap in days is the amyloid scan date minus the tau scan date, in whole
  days; whenever the filter returns a table, a row of the joined table is in it exactly
  when it has a gap and the absolute value of the gap is below 365. A row with gap 364 is
  kept, a row with gap 365 is dropped. The filter returns a table when all dates lie
  between the years 1823 and 2116.
\<close>

theorem tolerance_gate:
  "(tau_amy_scandiff_filter st sa df = Inr out \<longrightarrow>
      (row \<in> set out \<longleftrightarrow>
         row \<in> set df \<and> (\<exists>g. AMY_TAU_SCANDIFF_DAYS st sa row = Inr (Some g) \<and> \<bar>g\<bar> < 365))) \<and>
   (snd row = Some a \<and> sa a = Some d \<and> st (fst row) = Some t \<and> in_int64 (d - t) \<longrightarrow>
      AMY_TAU_SCANDIFF_DAYS st sa row = Inr (Some ((d - t) div ns_per_day))) \<and>
   (tau_amy_scandiff_filter st sa df = Inr out \<and> row \<in> set df \<and>
      AMY_TAU_SCANDIFF_DAYS st sa row = Inr (Some 364) \<longrightarrow> row \<in> set out) \<and>
   (tau_amy_scandiff_filter st sa df = Inr out \<and>
      AMY_TAU_SCANDIFF_DAYS st sa row = Inr (Some 365) \<longrightarrow> row \<notin> set out) \<and>
   ((\<forall>r \<in> set df. date_in_range (st (fst r)) \<and> (\<forall>m. snd r = Some m \<longrightarrow> date_in_range (sa m))) \<longrightarrow>
      (\<exists>res. tau_amy_scandiff_filter st sa df = Inr res))"
proof -
  have mem: "row \<in> set out \<longleftrightarrow>
         row \<in> set df \<and> (\<exists>g. AMY_TAU_SCANDIFF_DAYS st sa row = Inr (Some g) \<and> \<bar>g\<bar> < 365)"
    if f: "tau_amy_scandiff_filter st sa df = Inr out"
  proof -
    from f have o: "out = filter (\<lambda>row. case AMY_TAU_SCANDIFF_DAYS st sa row of
                               Inr (Some gap_days) \<Rightarrow> \<bar>gap_days\<bar> < 365
                             | _ \<Rightarrow> False) df"
      by (simp add: tau_amy_scandiff_filter_def split: if_splits)
    show ?thesis unfolding o
      by (cases "AMY_TAU_SCANDIFF_DAYS st sa row") (auto split: option.splits)
  qed
  have val: "AMY_TAU_SCANDIFF_DAYS st sa row = Inr (Some ((d - t) div ns_per_day))"
    if "snd row = Some a" "sa a = Some d" "st (fst row) = Some t" "in_int64 (d - t)"
    using that by (simp add: AMY_TAU_SCANDIFF_DAYS_def)
  have ok: "AMY_TAU_SCANDIFF_DAYS st sa r \<noteq> Inl OverflowError"
    if "date_in_range (st (fst r))" "\<forall>m. snd r = Some m \<longrightarrow> date_in_range (sa m)" for r
    using that
    by (auto simp: AMY_TAU_SCANDIFF_DAYS_def date_in_range_def in_int64_def
             split: option.splits)
  have tot: "\<exists>res. tau_amy_scandiff_filter st sa df = Inr res"
    if "\<forall>r \<in> set df. date_in_range (st (fst r)) \<and> (\<forall>m. snd r = Some m \<longrightarrow> date_in_range (sa m))"
    using that ok by (simp add: tau_amy_scandiff_filter_def list_ex_iff)
  from mem val tot show ?thesis by auto
qed

theorem tolerance_gate_witness:
  "AMY_TAU_SCANDIFF_DAYS snd snd
      ((Some (1::int), Some (0::int)), Some (Some (1::int), Some (31449600000000007::int))) = Inr (Some 364) \<and>
   AMY_TAU_SCANDIFF_DAYS snd snd
      ((Some (1::int), Some (0::int)), Some (Some (1::int), Some (31536000000000000::int))) = Inr (Some 365) \<and>
   tau_amy_scandiff_filter snd snd
      [((Some (1::int), Some (0::int)), Some (Some (1::int), Some (31449600000000007::int))),
       ((Some (1::int), Some (0::int)), Some (Some (1::int), Some (31536000000000000::int))),
       ((Some 1, Some 0), None)]
    = Inr [((Some (1::int), Some (0::int)), Some (Some (1::int), Some (31449600000000007::int)))] \<and>
   ((Some (1::int), Some (0::int)), Some (Some (1::int), Some (31449600000000007::int)))
     \<in> set [((Some (1::int), Some (0::int)), Some (Some (1::int), Some (31449600000000007::int)))] \<and>
   ((Some (1::int), Some (0::int)), Some (Some (1::int), Some (31536000000000000::int)))
     \<notin> set [((Some (1::int), Some (0::int)), Some (Some (1::int), Some (31449600000000007::int)))]"
proof -
  let ?r1 = "((Some (1::int), Some (0::int)), Some (Some (1::int), Some (31449600000000007::int)))"
  let ?r2 = "((Some (1::int), Some (0::int)), Some (Some (1::int), Some (31536000000000000::int)))"
  let ?df = "[?r1, ?r2, ((Some 1, Some 0), None)]"
  have g1: "AMY_TAU_SCANDIFF_DAYS snd snd ?r1 = Inr (Some 364)"
    using tolerance_gate [of snd snd ?df "[?r1]" ?r1 "(Some 1, Some 31449600000000007)"
                            31449600000000007 0]
    by (simp add: ns_per_day_def in_int64_def)
  have g2: "AMY_TAU_SCANDIFF_DAYS snd snd ?r2 = Inr (Some 365)"
    using tolerance_gate [of snd snd ?df "[?r1]" ?r2 "(Some 1, Some 31536000000000000)"
                            31536000000000000 0]
    by (simp add: ns_per_day_def in_int64_def)
  have f: "tau_amy_scandiff_filter snd snd ?df = Inr [?r1]" by code_simp
  have "?r1 \<in> set [?r1]"
    using tolerance_gate [of snd snd ?df "[?r1]" ?r1] g1 f by simp
  moreover have "?r2 \<notin> set [?r1]"
    using tolerance_gate [of snd snd ?df "[?r1]" ?r2] g2 f by simp
  ultimately show ?thesis using g1 g2 f by simp
qed

section \<open>Deduplication of genotype records\<close>

lemma drop_duplicates_last_subset: "set (drop_duplicates_last key xs) \<subseteq> set xs"
  by (induction xs) auto

lemma drop_duplicates_last_group:
  "k \<in> set (map key xs) \<Longrightarrow>
     filter (\<lambda>y. key y = k) (drop_duplicates_last key xs) = [last (filter (\<lambda>y. key y = k) xs)]"
proof (induction xs)
  case Nil
  then show ?case by simp
next
  case (Cons x xs)
  show ?case
  proof (cases "key x \<in> set (map key xs)")
    case True
    show ?thesis
    proof (cases "key x = k")
      case kx: True
      with True have "filter (\<lambda>y. key y = k) xs \<noteq> []"
        by (auto simp: filter_empty_conv)
      with True kx Cons.IH show ?thesis by auto
    next
      case False
      with Cons True show ?thesis by auto
    qed
  next
    case False
    show ?thesis
    proof (cases "key x = k")
      case kx: True
      with False have "\<forall>y \<in> set xs. key y \<noteq> k"
        by (metis image_eqI list.set_map)
      then have "filter (\<lambda>y. key y = k) xs = []"
        by (simp add: filter_empty_conv)
      moreover from this have "filter (\<lambda>y. key y = k) (drop_duplicates_last key xs) = []"
        using drop_duplicates_last_subset [of key xs] by (auto simp: filter_empty_conv)
      ultimately show ?thesis using False kx by simp
    next
      case kx: False
      with Cons False show ?thesis by auto
    qed
  qed
qed

lemma drop_duplicates_last_keys: "set (map key (drop_duplicates_last key xs)) = set (map key xs)"
  by (induction xs) auto



section \<open>The quality filter\<close>

lemma bit_length_le: "n < 2 ^ k \<Longrightarrow> bit_length n \<le> k"
proof (induction k arbitrary: n)
  case 0
  then have "n = 0" by simp
  then show ?case by (simp add: bit_length.simps)
next
  case (Suc k)
  show ?case
  proof (cases "n = 0")
    case True
    then show ?thesis by (simp add: bit_length.simps)
  next
    case False
    from Suc.prems have "n div 2 < 2 ^ k" by simp
    from Suc.IH [OF this] False show ?thesis by (subst bit_length.simps) simp
  qed
qed

lemma bit_length_eq: "2 ^ k \<le> n \<Longrightarrow> n < 2 ^ Suc k \<Longrightarrow> bit_length n = Suc k"
proof (induction k arbitrary: n)
  case 0
  then have "n = 1" by simp
  then show ?case by (simp add: bit_length.simps)
next
  case (Suc k)
  from Suc.prems have "2 ^ k \<le> n div 2" "n div 2 < 2 ^ Suc k" by simp_all
  from Suc.IH [OF this] have "bit_length (n div 2) = Suc k" .
  moreover from Suc.prems have "n \<noteq> 0" by auto
  ultimately show ?case by (subst bit_length.simps) simp
qed

lemma float64_exact: "\<bar>n\<bar> < 9007199254740992 \<Longrightarrow> float64 n = n"
proof -
  assume b: "\<bar>n\<bar> < 9007199254740992"
  then have "nat \<bar>n\<bar> < 2 ^ 53" by simp
  then have "bit_length (nat \<bar>n\<bar>) \<le> 53" by (rule bit_length_le)
  then have "bit_length (nat \<bar>n\<bar>) - 53 = 0" by simp
  then have "float64 n = sgn n * int (nat \<bar>n\<bar>)" by (simp add: float64_def Let_def)
  then show ?thesis by (simp add: sgn_if)
qed

lemma cell_eq_exact: "exact_cell a \<Longrightarrow> exact_cell b \<Longrightarrow> cell_eq a b = same_value a b"
  by (cases a; cases b) (auto simp: exact_cell_def float64_exact)

lemma isin_exact:
  assumes "exact_cell c" and "\<forall>v \<in> set vs. exact_cell v"
  shows "isin c vs = (if c = NaN then NaN \<in> set vs else list_ex (same_value c) vs)"
proof -
  have "list_ex (cell_eq c) vs = list_ex (same_value c) vs"
    unfolding list_ex_iff using assms cell_eq_exact by blast
  then show ?thesis by (simp add: isin_def)
qed

lemma exact_cell_of: "\<forall>c \<in> set r. exact_cell c \<Longrightarrow> exact_cell (cell_of cols r q)"
proof (cases "map_of (zip cols r) q")
  case None
  then show ?thesis by (simp add: cell_of_def exact_cell_def)
next
  case (Some v)
  assume a: "\<forall>c \<in> set r. exact_cell c"
  from map_of_SomeD [OF Some] have "v \<in> set r" by (rule set_zip_rightD)
  with a Some show ?thesis by (simp add: cell_of_def)
qed

lemma filter_pet_qc_char:
  "filter_pet_qc df q p t e =
     (if labels_clash (columns df) q t e then Inl DuplicateLabels
      else Inr (df\<lparr>rows := filter (qc_kept (columns df) q p t e) (rows df)\<rparr>))"
  by (auto simp: filter_pet_qc_def labels_clash_def qc_kept_def [abs_def]
           split: option.splits list.splits)

lemma qc_kept_retained:
  assumes "exact_cell p" and "\<forall>c \<in> set r. exact_cell c"
      and "\<forall>cats. e = Some cats \<longrightarrow> (\<forall>c \<in> set cats. exact_cell c)"
  shows "qc_kept cols q p t e r = qc_retained cols q p t e r"
proof -
  have a: "cell_eq (cell_of cols r q) p = same_value (cell_of cols r q) p"
    using assms(1) exact_cell_of [OF assms(2)] by (simp add: cell_eq_exact)
  have b: "isin (cell_of cols r t) cats =
             (if cell_of cols r t = NaN then NaN \<in> set cats
              else list_ex (same_value (cell_of cols r t)) cats)" if "e = Some cats" for cats
    using assms(3) that exact_cell_of [OF assms(2)] by (intro isin_exact) auto
  show ?thesis
  proof (cases e)
    case None
    then show ?thesis by (auto simp: qc_kept_def qc_retained_def a)
  next
    case (Some cats)
    show ?thesis
    proof (cases cats)
      case Nil
      with Some show ?thesis by (auto simp: qc_kept_def qc_retained_def a)
    next
      case (Cons x xs)
      with Some b [of cats] show ?thesis by (auto simp: qc_kept_def qc_retained_def a)
    qed
  qed
qed

text \<open>
  Claim C8, as amended. Applying \<open>filter_pet_qc\<close> twice with the same quality field, pass
  value, category field and exclusion list gives what applying it once gives, an error
  of the first application being the result. The filter leaves the schema alone. When
  the pass value, the cells and the exclusion list hold no integer of \<open>2 ^ 53\<close> or more
  in absolute value, it keeps, in order, exactly the rows that the rule \<open>qc_retained\<close>
  retains. It returns a table when neither the quality label nor the category label
  names two columns.
\<close>

theorem filter_pet_qc_idempotent:
  "(case filter_pet_qc df q p t e of Inl err \<Rightarrow> Inl err | Inr d' \<Rightarrow> filter_pet_qc d' q p t e)
     = filter_pet_qc df q p t e \<and>
   (filter_pet_qc df q p t e = Inr d \<longrightarrow> columns d = columns df) \<and>
   (filter_pet_qc df q p t e = Inr d \<and> exact_cell p \<and>
      (\<forall>r \<in> set (rows df). \<forall>c \<in> set r. exact_cell c) \<and>
      (\<forall>cats. e = Some cats \<longrightarrow> (\<forall>c \<in> set cats. exact_cell c)) \<longrightarrow>
      rows d = filter (qc_retained (columns df) q p t e) (rows df)) \<and>
   (\<not> repeated q (columns df) \<and> \<not> repeated t (columns df) \<longrightarrow>
      (\<exists>res. filter_pet_qc df q p t e = Inr res))"
proof (intro conjI impI)
  show "(case filter_pet_qc df q p t e of Inl err \<Rightarrow> Inl err | Inr d' \<Rightarrow> filter_pet_qc d' q p t e)
     = filter_pet_qc df q p t e"
    by (simp add: filter_pet_qc_char)
  show "columns d = columns df" if "filter_pet_qc df q p t e = Inr d"
    using that by (auto simp: filter_pet_qc_char split: if_splits)
  show "\<exists>res. filter_pet_qc df q p t e = Inr res"
    if "\<not> repeated q (columns df) \<and> \<not> repeated t (columns df)"
    using that by (auto simp: filter_pet_qc_char labels_clash_def split: option.splits list.splits)
  show "rows d = filter (qc_retained (columns df) q p t e) (rows df)"
    if h: "filter_pet_qc df q p t e = Inr d \<and> exact_cell p \<and>
      (\<forall>r \<in> set (rows df). \<forall>c \<in> set r. exact_cell c) \<and>
      (\<forall>cats. e = Some cats \<longrightarrow> (\<forall>c \<in> set cats. exact_cell c))"
  proof -
    from h have "rows d = filter (qc_kept (columns df) q p t e) (rows df)"
      by (auto simp: filter_pet_qc_char split: if_splits)
    also have "\<dots> = filter (qc_retained (columns df) q p t e) (rows df)"
      by (rule filter_cong) (use h qc_kept_retained in auto)
    finally show ?thesis .
  qed
qed

theorem filter_pet_qc_idempotent_witness:
  "\<exists>d. filter_pet_qc \<lparr>columns = [''RID'', ''QC_FLAG'', ''TRACER''],
       rows = [[Num 1, Num 2, Str ''AV1451''], [Num 2, Num 1, Str ''AV1451''],
               [Num 3, Num 2, Str ''MK6240''], [Num 4, NaN, Str ''AV1451'']]\<rparr>
          ''QC_FLAG'' (Num 2) ''TRACER'' (Some [Str ''MK6240'']) = Inr d \<and>
       rows d = [[Num 1, Num 2, Str ''AV1451'']] \<and>
       columns d = [''RID'', ''QC_FLAG'', ''TRACER''] \<and>
       filter_pet_qc d ''QC_FLAG'' (Num 2) ''TRACER'' (Some [Str ''MK6240'']) = Inr d"
proof -
  let ?df = "\<lparr>columns = [''RID'', ''QC_FLAG'', ''TRACER''],
       rows = [[Num 1, Num 2, Str ''AV1451''], [Num 2, Num 1, Str ''AV1451''],
               [Num 3, Num 2, Str ''MK6240''], [Num 4, NaN, Str ''AV1451'']]\<rparr>"
  let ?e = "Some [Str ''MK6240'']"
  note th = filter_pet_qc_idempotent [where df = ?df and q = "''QC_FLAG''" and p = "Num 2"
                                        and t = "''TRACER''" and e = ?e]
  have nr: "\<not> repeated ''QC_FLAG'' (columns ?df) \<and> \<not> repeated ''TRACER'' (columns ?df)"
    by (simp add: repeated_def)
  with th obtain d where d: "filter_pet_qc ?df ''QC_FLAG'' (Num 2) ''TRACER'' ?e = Inr d" by blast
  have ex: "exact_cell (Num 2) \<and> (\<forall>r \<in> set (rows ?df). \<forall>c \<in> set r. exact_cell c) \<and>
      (\<forall>cats. ?e = Some cats \<longrightarrow> (\<forall>c \<in> set cats. exact_cell c))"
    by (simp add: exact_cell_def)
  have kept: "filter (qc_retained (columns ?df) ''QC_FLAG'' (Num 2) ''TRACER'' ?e) (rows ?df)
                = [[Num 1, Num 2, Str ''AV1451'']]"
    by (simp add: qc_retained_def cell_of_def)
  from th [where d = d] d ex have r: "rows d = filter (qc_retained (columns ?df) ''QC_FLAG'' (Num 2) ''TRACER'' ?e) (rows ?df)"
    by blast
  from th [where d = d] d have c: "columns d = columns ?df" by blast
  from th d have i: "filter_pet_qc d ''QC_FLAG'' (Num 2) ''TRACER'' ?e = Inr d" by simp
  from d r kept c i show ?thesis by simp
qed

text \<open>
  The claim as first worded has the rule for every pass value. In a \<^verbatim>\<open>float64\<close> column
  the cell \<open>9007199254740992\<close> passes the comparison with the pass value
  \<open>9007199254740993\<close>, which is not a \<^verbatim>\<open>float64\<close>: the row is kept although the two values
  differ.
\<close>

theorem filter_pet_qc_float_counterexample:
  "filter_pet_qc \<lparr>columns = [''QC_FLAG''], rows = [[Flt 9007199254740992]]\<rparr>
      ''QC_FLAG'' (Num 9007199254740993) ''TRACER'' None
     = Inr \<lparr>columns = [''QC_FLAG''], rows = [[Flt 9007199254740992]]\<rparr> \<and>
   \<not> qc_retained [''QC_FLAG''] ''QC_FLAG'' (Num 9007199254740993) ''TRACER'' None
       [Flt 9007199254740992]"
proof -
  have "bit_length (nat \<bar>9007199254740993\<bar>) = Suc 53"
    by (rule bit_length_eq) simp_all
  then have f: "float64 9007199254740993 = 9007199254740992"
    by (simp add: float64_def Let_def)
  have c: "\<not> labels_clash [''QC_FLAG''] ''QC_FLAG'' ''TRACER'' None"
    by (simp add: labels_clash_def repeated_def)
  have k: "qc_kept [''QC_FLAG''] ''QC_FLAG'' (Num 9007199254740993) ''TRACER'' None
             [Flt 9007199254740992]"
    by (simp add: qc_kept_def cell_of_def f)
  have "filter_pet_qc \<lparr>columns = [''QC_FLAG''], rows = [[Flt 9007199254740992]]\<rparr>
      ''QC_FLAG'' (Num 9007199254740993) ''TRACER'' None
     = Inr \<lparr>columns = [''QC_FLAG''], rows = [[Flt 9007199254740992]]\<rparr>"
    by (simp add: filter_pet_qc_char c k)
  moreover have "\<not> qc_retained [''QC_FLAG''] ''QC_FLAG'' (Num 9007199254740993) ''TRACER'' None
       [Flt 9007199254740992]"
    by (simp add: qc_retained_def cell_of_def)
  ultimately show ?thesis by blast
qed

section \<open>The metadata merges\<close>

lemma merge_left_pair:
  "(l, Some r) \<in> set (merge_left lk rk left right) \<Longrightarrow> l \<in> set left \<and> r \<in> set right \<and> rk r = lk l"
proof -
  assume "(l, Some r) \<in> set (merge_left lk rk left right)"
  then obtain l' where l': "l' \<in> set left"
    and m: "(l, Some r) \<in> set (case filter (\<lambda>r. rk r = lk l') right of
                         [] \<Rightarrow> [(l', None)]
                       | m # ms \<Rightarrow> map (\<lambda>r. (l', Some r)) (m # ms))"
    by (auto simp: merge_left_def)
  from m have "l = l' \<and> r \<in> set (filter (\<lambda>r. rk r = lk l') right)"
    by (cases "filter (\<lambda>r. rk r = lk l') right") auto
  with l' show ?thesis by simp
qed


lemma tau_exact_keys:
  "(m, Some q) \<in> set (tau meta_rid meta_viscode qc_rid qc_viscode taumeta tau_qc_keep) \<Longrightarrow>
     qc_rid q = meta_rid m \<and> qc_viscode q = meta_viscode m"
  by (auto simp: tau_def dest: merge_left_pair)

text \<open>
  Claim C5. Exact-key metadata merge: two rows are paired only when both the subject key
  and the visit code are equal, for tau and for amyloid. The tau merge does so
  (\<open>tau_exact_keys\<close>). The amyloid merge is on \<^verbatim>\<open>RID\<close> alone: it pairs a metadata row of
  visit \<open>bl\<close> with a quality-control row of visit \<open>m12\<close> of the same subject, where the tau
  merge on the same two rows pairs nothing.
\<close>

theorem amy_pairs_rows_of_different_visits:
  "amy fst fst [(Some (1::int), Some ''bl'')] [(Some (1::int), Some ''m12'')]
     = [((Some 1, Some ''bl''), Some (Some 1, Some ''m12''))] \<and>
   tau fst snd fst snd [(Some (1::int), Some ''bl'')] [(Some (1::int), Some ''m12'')]
     = [((Some 1, Some ''bl''), None)]"
  by code_simp

section \<open>Rows of the final table\<close>

lemma drop_duplicates_last_is_last:
  assumes "x \<in> set (drop_duplicates_last key xs)"
  shows "x = last (filter (\<lambda>y. key y = key x) xs)"
proof -
  from assms have "key x \<in> set (map key xs)"
    using drop_duplicates_last_subset [of key xs] by auto
  from drop_duplicates_last_group [OF this]
  have "filter (\<lambda>y. key y = key x) (drop_duplicates_last key xs)
          = [last (filter (\<lambda>y. key y = key x) xs)]" .
  moreover from assms have "x \<in> set (filter (\<lambda>y. key y = key x) (drop_duplicates_last key xs))"
    by simp
  ultimately show ?thesis by simp
qed

lemma add_apoe4_status_row:
  assumes "(k, v) \<in> set (add_apoe4_status rid gt apoe_raw)"
  shows "\<exists>x. x \<in> set apoe_raw \<and> rid x = k \<and> x = last (filter (\<lambda>y. rid y = k) apoe_raw) \<and>
             v = (case gt x of None \<Rightarrow> None | Some g \<Rightarrow> map_of mapping g)"
proof -
  from assms obtain x where x: "x \<in> set (drop_duplicates_last rid apoe_raw)" "rid x = k"
    "v = (case gt x of None \<Rightarrow> None | Some g \<Rightarrow> map_of mapping g)"
    by (auto simp: add_apoe4_status_def Let_def)
  from drop_duplicates_last_is_last [OF x(1)] x drop_duplicates_last_subset [of rid apoe_raw]
  show ?thesis by auto
qed

lemma set_tau_amy_scandiff_filter:
  "tau_amy_scandiff_filter st sa df = Inr out \<Longrightarrow> set out \<subseteq> set df"
  by (auto simp: tau_amy_scandiff_filter_def split: if_splits)

text \<open>
  Claim C9. Whenever the pipeline returns its final table, every row of it has a
  genotype risk score and a diagnosis, neither missing. The score is the one the fixed
  table gives for the genotype of the subject's last genotype record: a subject with no
  genotype record, or whose kept genotype is not one of the six keys, has no row in the
  final table.
\<close>

theorem output_rows_have_apoe4_and_dx:
  assumes run: "tau_amy_cortical_rows tau_rid SCANDATE adni_rid EXAMDATE DX apoe_rid GENOTYPE amy_rid
                  SCANDATE_AMY tau_merged adni2 apoe_raw amy_merged = Inr out"
      and row: "row \<in> set out"
  shows "\<exists>score dx g x.
           APOE4_of (fst row) = Some score \<and> DX_of DX (fst (fst row)) = Some dx \<and>
           x \<in> set apoe_raw \<and> apoe_rid x = tau_rid (fst (fst (fst row))) \<and>
           x = last (filter (\<lambda>y. apoe_rid y = tau_rid (fst (fst (fst row)))) apoe_raw) \<and>
           GENOTYPE x = Some g \<and> map_of mapping g = Some score"
proof -
  from run obtain ta where ta: "tau_adni tau_rid adni_rid SCANDATE EXAMDATE tau_merged adni2 = Inr ta"
    by (cases "tau_adni tau_rid adni_rid SCANDATE EXAMDATE tau_merged adni2")
       (simp_all add: tau_amy_cortical_rows_def)
  let ?apoe = "add_apoe4_status apoe_rid GENOTYPE apoe_raw"
  let ?m = "merge_left (tau_rid \<circ> fst) fst ta ?apoe"
  let ?d = "dropna [isna \<circ> APOE4_of, isna \<circ> DX_of DX \<circ> fst] ?m"
  let ?j = "tau_amy (tau_rid \<circ> fst \<circ> fst) amy_rid (SCANDATE \<circ> fst \<circ> fst) SCANDATE_AMY ?d amy_merged"
  from run have "(case ?j of Inl e \<Rightarrow> Inl e
                  | Inr df \<Rightarrow> tau_amy_scandiff_filter (SCANDATE \<circ> fst \<circ> fst) SCANDATE_AMY df)
                 = Inr out"
    by (simp add: tau_amy_cortical_rows_def ta Let_def)
  then obtain tam where tam: "?j = Inr tam"
    and out: "tau_amy_scandiff_filter (SCANDATE \<circ> fst \<circ> fst) SCANDATE_AMY tam = Inr out"
    by (cases ?j) auto
  from row set_tau_amy_scandiff_filter [OF out] have "row \<in> set tam" by blast
  then have "fst row \<in> set (map fst tam)" by simp
  moreover from tam have "map fst tam = sort_values (tau_rid \<circ> fst \<circ> fst) (SCANDATE \<circ> fst \<circ> fst) ?d"
    unfolding tau_amy_def by (rule merge_asof_left_rows)
  ultimately have "fst row \<in> set ?d"
    by (simp only: set_sort_values)
  then have inm: "fst row \<in> set ?m" and a: "APOE4_of (fst row) \<noteq> None"
    and d: "DX_of DX (fst (fst row)) \<noteq> None"
    by (auto simp: dropna_def isna_def)
  from a obtain k score where g: "snd (fst row) = Some (k, Some score)"
    and sc: "APOE4_of (fst row) = Some score"
    by (cases "snd (fst row)") (auto simp: APOE4_of_def)
  from g have "fst row = (fst (fst row), Some (k, Some score))" by (simp add: prod_eq_iff)
  with inm have "(fst (fst row), Some (k, Some score)) \<in> set ?m" by simp
  from merge_left_pair [OF this] have ks: "(k, Some score) \<in> set ?apoe"
    and k: "k = tau_rid (fst (fst (fst row)))" by auto
  from add_apoe4_status_row [OF ks] obtain x where x: "x \<in> set apoe_raw" "apoe_rid x = k"
    "x = last (filter (\<lambda>y. apoe_rid y = k) apoe_raw)"
    "Some score = (case GENOTYPE x of None \<Rightarrow> None | Some g \<Rightarrow> map_of mapping g)" by blast
  from x(4) obtain gs where gs: "GENOTYPE x = Some gs" "map_of mapping gs = Some score"
    by (cases "GENOTYPE x") auto
  from d obtain dx where dx: "DX_of DX (fst (fst row)) = Some dx" by auto
  note x' = x(1-3) [unfolded k]
  from sc dx x' gs show ?thesis by blast
qed


theorem output_rows_have_apoe4_and_dx_witness:
  "tau_amy_cortical_rows fst snd fst (fst \<circ> snd) (snd \<circ> snd) fst snd fst snd
     [(Some (1::int), Some (100::int)), (Some 2, Some 200), (Some 3, Some 300), (Some 4, Some 400)]
     [(Some (1::int), Some (90::int), Some ''CN''), (Some 2, Some 210, Some ''MCI''),
      (Some 3, Some 300, None), (Some 4, Some 395, Some ''AD'')]
     [(Some (1::int), Some ''3/4''), (Some 2, Some ''3/5''), (Some 3, Some ''3/3''), (Some 1, Some ''4/4'')]
     [(Some (1::int), Some (120::int)), (Some 4, Some 420)]
   = Inr [((((Some 1, Some 100), Some (Some 1, Some 90, Some ''CN'')), Some (Some 1, Some 2)),
           Some (Some 1, Some 120))] \<and>
   (\<exists>score dx g x.
      APOE4_of (((Some (1::int), Some (100::int)), Some (Some (1::int), Some (90::int), Some ''CN'')),
                Some (Some (1::int), Some (2::int))) = Some score \<and>
      DX_of (snd \<circ> snd) ((Some (1::int), Some (100::int)), Some (Some (1::int), Some (90::int), Some ''CN''))
        = Some dx \<and>
      x \<in> set [(Some (1::int), Some ''3/4''), (Some 2, Some ''3/5''), (Some 3, Some ''3/3''), (Some 1, Some ''4/4'')] \<and>
      fst x = Some 1 \<and> snd x = Some g \<and> map_of mapping g = Some score)"
proof -
  let ?out = "[((((Some (1::int), Some (100::int)), Some (Some (1::int), Some (90::int), Some ''CN'')),
                Some (Some (1::int), Some (2::int))), Some (Some (1::int), Some (120::int)))]"
  have h: "tau_amy_cortical_rows fst snd fst (fst \<circ> snd) (snd \<circ> snd) fst snd fst snd
     [(Some (1::int), Some (100::int)), (Some 2, Some 200), (Some 3, Some 300), (Some 4, Some 400)]
     [(Some (1::int), Some (90::int), Some ''CN''), (Some 2, Some 210, Some ''MCI''),
      (Some 3, Some 300, None), (Some 4, Some 395, Some ''AD'')]
     [(Some (1::int), Some ''3/4''), (Some 2, Some ''3/5''), (Some 3, Some ''3/3''), (Some 1, Some ''4/4'')]
     [(Some (1::int), Some (120::int)), (Some 4, Some 420)] = Inr ?out"
    by code_simp
  have r: "hd ?out \<in> set ?out" by simp
  from output_rows_have_apoe4_and_dx [OF h r] h show ?thesis by fastforce
qed

section \<open>Region columns of the final table\<close>

lemma endswith_iff: "endswith s suffix \<longleftrightarrow> (\<exists>p. s = p @ suffix)"
proof
  assume "endswith s suffix"
  then have "s = take (length s - length suffix) s @ suffix"
    by (metis append_take_drop_id endswith_def)
  then show "\<exists>p. s = p @ suffix" ..
next
  assume "\<exists>p. s = p @ suffix"
  then show "endswith s suffix" by (auto simp: endswith_def)
qed

lemma enumerate_filter_nth:
  "map snd (filter (\<lambda>(i, x). P i) (enumerate 0 arr)) = map (\<lambda>i. arr ! i) (filter P [0..<length arr])"
proof -
  have "enumerate 0 arr = map (\<lambda>i. (i, arr ! i)) [0..<length arr]"
    by (rule nth_equalityI) (simp_all add: nth_enumerate_eq)
  then show ?thesis by (simp add: filter_map comp_def)
qed

lemma np_delete_in_bounds:
  assumes "\<forall>i \<in> set obj. i < length arr"
  shows "np_delete arr obj = Inr (map (\<lambda>i. arr ! i) (filter (\<lambda>i. i \<notin> set obj) [0..<length arr]))"
proof -
  from assms have "\<not> list_ex (\<lambda>i. length arr \<le> i) obj" by (auto simp: list_ex_iff)
  then show ?thesis by (simp add: np_delete_def enumerate_filter_nth)
qed

lemma np_delete_Inr:
  "np_delete arr obj = Inr ys \<Longrightarrow> ys = map (\<lambda>i. arr ! i) (filter (\<lambda>i. i \<notin> set obj) [0..<length arr])"
  by (auto simp: np_delete_def enumerate_filter_nth split: if_splits)

lemma subcortical_idx_bound: "i \<in> set subcortical_idx \<Longrightarrow> i \<le> 83"
  by (auto simp: subcortical_idx_def)

lemma suvr_cols_ordered_catalog:
  assumes "83 < length fs_region"
  shows "suvr_cols_ordered fs_region cols =
           Inr (catalog_region_columns (map FS_LABEL fs_region) subcortical_idx cols)"
proof -
  let ?cat = "map FS_LABEL fs_region"
  have "\<forall>i \<in> set subcortical_idx. i < length ?cat"
    using assms subcortical_idx_bound by fastforce
  from np_delete_in_bounds [OF this]
  have "suvr_cols_ordered fs_region cols =
          Inr (filter (\<lambda>c. c \<in> set cols)
                 (map (\<lambda>i. ?cat ! i) (filter (\<lambda>i. i \<notin> set subcortical_idx) [0..<length ?cat])))"
    by (simp add: suvr_cols_ordered_def)
  also have "filter (\<lambda>c. c \<in> set cols)
                 (map (\<lambda>i. ?cat ! i) (filter (\<lambda>i. i \<notin> set subcortical_idx) [0..<length ?cat]))
             = catalog_region_columns ?cat subcortical_idx cols"
    unfolding catalog_region_columns_def filter_map filter_filter comp_def
    by (rule arg_cong [where f = "map _"], rule filter_cong) auto
  finally show ?thesis .
qed

lemma suvr_cols_ordered_subset:
  "suvr_cols_ordered fs_region cols = Inr s \<Longrightarrow> set s \<subseteq> set cols"
  by (auto simp: suvr_cols_ordered_def split: sum.splits)

lemma get_indexer_labels:
  "map (\<lambda>i. cols ! i) (get_indexer cols l) = filter (\<lambda>c. c = l) cols"
proof -
  have "filter (\<lambda>c. c = l) cols = filter (\<lambda>c. c = l) (map (\<lambda>i. cols ! i) [0..<length cols])"
    by (simp add: map_nth)
  also have "\<dots> = map (\<lambda>i. cols ! i) (get_indexer cols l)"
    by (simp add: filter_map comp_def get_indexer_def)
  finally show ?thesis by simp
qed

lemma distinct_filter_eq:
  "distinct cols \<Longrightarrow> filter (\<lambda>c. c = l) cols = (if l \<in> set cols then [l] else [])"
  by (induction cols) auto

lemma getitem_columns_general:
  assumes "getitem df labels = Inr out"
  shows "columns out = concat (map (\<lambda>l. filter (\<lambda>c. c = l) (columns df)) labels)"
proof -
  from assms have "columns out =
      map (\<lambda>i. columns df ! i) (concat (map (get_indexer (columns df)) labels))"
    by (auto simp: getitem_def Let_def split: if_splits)
  then show ?thesis by (simp add: map_concat comp_def get_indexer_labels)
qed

lemma getitem_columns_distinct:
  assumes g: "getitem df labels = Inr out" and d: "distinct (columns df)"
  shows "columns out = labels"
proof -
  from g have sub: "set labels \<subseteq> set (columns df)"
    by (auto simp: getitem_def list_ex_iff split: if_splits)
  have "concat (map (\<lambda>l. filter (\<lambda>c. c = l) (columns df)) labels) = concat (map (\<lambda>l. [l]) labels)"
    by (rule arg_cong [where f = concat], rule map_cong) (use sub d in \<open>auto simp: distinct_filter_eq\<close>)
  also have "\<dots> = labels" by (induction labels) auto
  finally show ?thesis using getitem_columns_general [OF g] by simp
qed

lemma getitem_defined:
  "set labels \<subseteq> set (columns df) \<Longrightarrow> \<exists>out. getitem df labels = Inr out"
  by (auto simp: getitem_def list_ex_iff Let_def)

lemma get_indexer_bound: "i \<in> set (get_indexer cols l) \<Longrightarrow> i < length cols \<and> cols ! i = l"
  by (auto simp: get_indexer_def)

lemma getitem_cells:
  assumes g: "getitem df labels = Inr out" and d: "distinct (columns df)"
      and wf: "\<forall>r \<in> set (rows df). length r = length (columns df)"
      and n: "n < length (rows df)" and c: "c \<in> set labels"
  shows "cell_of (columns out) (rows out ! n) c = cell_of (columns df) (rows df ! n) c"
proof -
  let ?cols = "columns df" and ?r = "rows df ! n"
  let ?idx = "concat (map (get_indexer ?cols) labels)"
  from wf n have len: "length ?r = length ?cols" by simp
  have bound: "i < length ?cols" if "i \<in> set ?idx" for i
    using that get_indexer_bound by fastforce
  from g have oc: "columns out = map (\<lambda>i. ?cols ! i) ?idx"
    and orows: "rows out = map (\<lambda>r. map (\<lambda>i. if i < length r then r ! i else NaN) ?idx) (rows df)"
    by (auto simp: getitem_def Let_def split: if_splits)
  from orows n have "rows out ! n = map (\<lambda>i. if i < length ?r then ?r ! i else NaN) ?idx"
    by simp
  also have "\<dots> = map (\<lambda>i. ?r ! i) ?idx"
    by (rule map_cong) (use bound len in auto)
  finally have orow: "rows out ! n = map (\<lambda>i. ?r ! i) ?idx" .
  have z: "zip (columns out) (rows out ! n) = map (\<lambda>i. (?cols ! i, ?r ! i)) ?idx"
    unfolding oc orow by (simp add: zip_map_map zip_same_conv_map comp_def)
  from getitem_columns_distinct [OF g d] c have "c \<in> set (columns out)" by simp
  then have "c \<in> (\<lambda>i. ?cols ! i) ` set ?idx" by (simp only: oc set_map)
  then obtain j where j: "j \<in> set ?idx" "c = ?cols ! j" by blast
  then have "(c, ?r ! j) \<in> (\<lambda>i. (?cols ! i, ?r ! i)) ` set ?idx" by blast
  then have "(c, ?r ! j) \<in> set (zip (columns out) (rows out ! n))" by (simp only: z set_map)
  then have "map_of (zip (columns out) (rows out ! n)) c \<noteq> None"
    by (metis fst_conv image_eqI map_of_eq_None_iff)
  then obtain v where v: "map_of (zip (columns out) (rows out ! n)) c = Some v" by blast
  from map_of_SomeD [OF this] have "(c, v) \<in> (\<lambda>i. (?cols ! i, ?r ! i)) ` set ?idx"
    by (simp only: z set_map)
  then obtain i where i: "i \<in> set ?idx" "?cols ! i = c" "v = ?r ! i" by blast
  from bound [OF i(1)] len have "i < length ?r" by simp
  from map_of_zip_nth [OF len [symmetric] d this] i
  have "map_of (zip ?cols ?r) c = Some v" by simp
  with v show ?thesis by (simp add: cell_of_def)
qed

lemma getitem_length_rows: "getitem df labels = Inr out \<Longrightarrow> length (rows out) = length (rows df)"
  by (auto simp: getitem_def Let_def split: if_splits)

lemma non_suvr_cols_subset: "set (non_suvr_cols cols) \<subseteq> set cols"
  by (auto simp: non_suvr_cols_def)

text \<open>
  Claim C6, as amended. For a catalog of at least 84 entries, so that every subcortical
  position exists, and a table with distinct column names and one cell for each column
  in every row, the final table exists and its columns are: every column of the table
  whose name does not end in \<open>_SUVR\<close>, in table order, and after them the catalog's
  region columns in catalog order, without the entries absent from the table and without
  the entries at the subcortical positions. Every cell of every column kept is the cell
  the table had. A permutation of the table's columns leaves the list of region columns
  the same.
\<close>

theorem region_columns_follow_catalog_order:
  assumes long: "83 < length fs_region"
      and d: "distinct (columns df)"
      and wf: "\<forall>r \<in> set (rows df). length r = length (columns df)"
  shows "\<exists>out. tau_amy_cortical fs_region df = Inr out \<and>
           columns out = filter (\<lambda>c. \<not> (\<exists>p. c = p @ ''_SUVR'')) (columns df) @
                         catalog_region_columns (map FS_LABEL fs_region) subcortical_idx (columns df) \<and>
           length (rows out) = length (rows df) \<and>
           (\<forall>n < length (rows df). \<forall>c \<in> set (columns out).
              cell_of (columns out) (rows out ! n) c = cell_of (columns df) (rows df ! n) c) \<and>
           (\<forall>cols'. mset cols' = mset (columns df) \<longrightarrow>
              suvr_cols_ordered fs_region cols' = suvr_cols_ordered fs_region (columns df))"
proof -
  let ?reg = "catalog_region_columns (map FS_LABEL fs_region) subcortical_idx (columns df)"
  let ?labels = "non_suvr_cols (columns df) @ ?reg"
  have s: "suvr_cols_ordered fs_region (columns df) = Inr ?reg"
    using long by (rule suvr_cols_ordered_catalog)
  from suvr_cols_ordered_subset [OF s] non_suvr_cols_subset [of "columns df"]
  have "set ?labels \<subseteq> set (columns df)" by simp
  from getitem_defined [OF this] obtain out where g: "getitem df ?labels = Inr out" ..
  with s have run: "tau_amy_cortical fs_region df = Inr out"
    by (simp add: tau_amy_cortical_def)
  have cols: "columns out = ?labels" using g d by (rule getitem_columns_distinct)
  have ns: "non_suvr_cols (columns df) = filter (\<lambda>c. \<not> (\<exists>p. c = p @ ''_SUVR'')) (columns df)"
    by (simp only: non_suvr_cols_def endswith_iff)
  show ?thesis
  proof (intro exI conjI allI impI ballI)
    show "tau_amy_cortical fs_region df = Inr out" by (rule run)
    show "columns out = filter (\<lambda>c. \<not> (\<exists>p. c = p @ ''_SUVR'')) (columns df) @ ?reg"
      by (simp only: cols ns)
    show "length (rows out) = length (rows df)" using g by (rule getitem_length_rows)
  next
    fix n c assume n: "n < length (rows df)" and "c \<in> set (columns out)"
    then have "c \<in> set ?labels" by (simp only: cols)
    with g d wf n show "cell_of (columns out) (rows out ! n) c = cell_of (columns df) (rows df ! n) c"
      by (rule getitem_cells)
  next
    fix cols' assume "mset cols' = mset (columns df)"
    then have "set cols' = set (columns df)" by (rule mset_eq_setD)
    then show "suvr_cols_ordered fs_region cols' = suvr_cols_ordered fs_region (columns df)"
      by (simp only: suvr_cols_ordered_def)
  qed
qed

theorem region_columns_follow_catalog_order_witness:
  "83 < length ([''r-0'', ''r-1'', ''r-2'', ''r-3'', ''r-4'', ''r-5'', ''r-6'', ''r-7'',
      ''r-8'', ''r-9'', ''r-10'', ''r-11'', ''r-12'', ''r-13'', ''r-14'', ''r-15'',
      ''r-16'', ''r-17'', ''r-18'', ''r-19'', ''r-20'', ''r-21'', ''r-22'', ''r-23'',
      ''r-24'', ''r-25'', ''r-26'', ''r-27'', ''r-28'', ''r-29'', ''r-30'', ''r-31'',
      ''r-32'', ''r-33'', ''r-34'', ''r-35'', ''r-36'', ''r-37'', ''r-38'', ''r-39'',
      ''r-40'', ''r-41'', ''r-42'', ''r-43'', ''r-44'', ''r-45'', ''r-46'', ''r-47'',
      ''r-48'', ''r-49'', ''r-50'', ''r-51'', ''r-52'', ''r-53'', ''r-54'', ''r-55'',
      ''r-56'', ''r-57'', ''r-58'', ''r-59'', ''r-60'', ''r-61'', ''r-62'', ''r-63'',
      ''r-64'', ''r-65'', ''r-66'', ''r-67'', ''r-68'', ''r-69'', ''r-70'', ''r-71'',
      ''r-72'', ''r-73'', ''r-74'', ''r-75'', ''r-76'', ''r-77'', ''r-78'', ''r-79'',
      ''r-80'', ''r-81'', ''r-82'', ''r-83'']) \<and>
   distinct (columns \<lparr>columns = [''R_2_SUVR'', ''RID'', ''R_40_SUVR'', ''R_1_SUVR'', ''OTHER_SUVR'', ''DX''],
       rows = [[Num 12, Num 1, Num 40, Num 11, Num 99, Str ''CN'']]\<rparr>) \<and>
   list_all (\<lambda>r. length r = length (columns \<lparr>columns = [''R_2_SUVR'', ''RID'', ''R_40_SUVR'', ''R_1_SUVR'', ''OTHER_SUVR'', ''DX''],
       rows = [[Num 12, Num 1, Num 40, Num 11, Num 99, Str ''CN'']]\<rparr>))
     (rows \<lparr>columns = [''R_2_SUVR'', ''RID'', ''R_40_SUVR'', ''R_1_SUVR'', ''OTHER_SUVR'', ''DX''],
       rows = [[Num 12, Num 1, Num 40, Num 11, Num 99, Str ''CN'']]\<rparr>) \<and>
   (\<exists>out. tau_amy_cortical ([''r-0'', ''r-1'', ''r-2'', ''r-3'', ''r-4'', ''r-5'', ''r-6'', ''r-7'',
      ''r-8'', ''r-9'', ''r-10'', ''r-11'', ''r-12'', ''r-13'', ''r-14'', ''r-15'',
      ''r-16'', ''r-17'', ''r-18'', ''r-19'', ''r-20'', ''r-21'', ''r-22'', ''r-23'',
      ''r-24'', ''r-25'', ''r-26'', ''r-27'', ''r-28'', ''r-29'', ''r-30'', ''r-31'',
      ''r-32'', ''r-33'', ''r-34'', ''r-35'', ''r-36'', ''r-37'', ''r-38'', ''r-39'',
      ''r-40'', ''r-41'', ''r-42'', ''r-43'', ''r-44'', ''r-45'', ''r-46'', ''r-47'',
      ''r-48'', ''r-49'', ''r-50'', ''r-51'', ''r-52'', ''r-53'', ''r-54'', ''r-55'',
      ''r-56'', ''r-57'', ''r-58'', ''r-59'', ''r-60'', ''r-61'', ''r-62'', ''r-63'',
      ''r-64'', ''r-65'', ''r-66'', ''r-67'', ''r-68'', ''r-69'', ''r-70'', ''r-71'',
      ''r-72'', ''r-73'', ''r-74'', ''r-75'', ''r-76'', ''r-77'', ''r-78'', ''r-79'',
      ''r-80'', ''r-81'', ''r-82'', ''r-83'']) \<lparr>columns = [''R_2_SUVR'', ''RID'', ''R_40_SUVR'', ''R_1_SUVR'', ''OTHER_SUVR'', ''DX''],
       rows = [[Num 12, Num 1, Num 40, Num 11, Num 99, Str ''CN'']]\<rparr> = Inr out \<and>
      columns out = [''RID'', ''DX'', ''R_1_SUVR'', ''R_2_SUVR''] \<and>
      cell_of (columns out) (rows out ! 0) ''R_1_SUVR'' = Num 11)"
proof -
  let ?cat = "[''r-0'', ''r-1'', ''r-2'', ''r-3'', ''r-4'', ''r-5'', ''r-6'', ''r-7'',
      ''r-8'', ''r-9'', ''r-10'', ''r-11'', ''r-12'', ''r-13'', ''r-14'', ''r-15'',
      ''r-16'', ''r-17'', ''r-18'', ''r-19'', ''r-20'', ''r-21'', ''r-22'', ''r-23'',
      ''r-24'', ''r-25'', ''r-26'', ''r-27'', ''r-28'', ''r-29'', ''r-30'', ''r-31'',
      ''r-32'', ''r-33'', ''r-34'', ''r-35'', ''r-36'', ''r-37'', ''r-38'', ''r-39'',
      ''r-40'', ''r-41'', ''r-42'', ''r-43'', ''r-44'', ''r-45'', ''r-46'', ''r-47'',
      ''r-48'', ''r-49'', ''r-50'', ''r-51'', ''r-52'', ''r-53'', ''r-54'', ''r-55'',
      ''r-56'', ''r-57'', ''r-58'', ''r-59'', ''r-60'', ''r-61'', ''r-62'', ''r-63'',
      ''r-64'', ''r-65'', ''r-66'', ''r-67'', ''r-68'', ''r-69'', ''r-70'', ''r-71'',
      ''r-72'', ''r-73'', ''r-74'', ''r-75'', ''r-76'', ''r-77'', ''r-78'', ''r-79'',
      ''r-80'', ''r-81'', ''r-82'', ''r-83'']"
  let ?cols = "[''R_2_SUVR'', ''RID'', ''R_40_SUVR'', ''R_1_SUVR'', ''OTHER_SUVR'', ''DX'']"
  let ?lab = "[''R_0_SUVR'', ''R_1_SUVR'', ''R_2_SUVR'', ''R_3_SUVR'', ''R_4_SUVR'',
      ''R_5_SUVR'', ''R_6_SUVR'', ''R_7_SUVR'', ''R_8_SUVR'', ''R_9_SUVR'',
      ''R_10_SUVR'', ''R_11_SUVR'', ''R_12_SUVR'', ''R_13_SUVR'', ''R_14_SUVR'',
      ''R_15_SUVR'', ''R_16_SUVR'', ''R_17_SUVR'', ''R_18_SUVR'', ''R_19_SUVR'',
      ''R_20_SUVR'', ''R_21_SUVR'', ''R_22_SUVR'', ''R_23_SUVR'', ''R_24_SUVR'',
      ''R_25_SUVR'', ''R_26_SUVR'', ''R_27_SUVR'', ''R_28_SUVR'', ''R_29_SUVR'',
      ''R_30_SUVR'', ''R_31_SUVR'', ''R_32_SUVR'', ''R_33_SUVR'', ''R_34_SUVR'',
      ''R_35_SUVR'', ''R_36_SUVR'', ''R_37_SUVR'', ''R_38_SUVR'', ''R_39_SUVR'',
      ''R_40_SUVR'', ''R_41_SUVR'', ''R_42_SUVR'', ''R_43_SUVR'', ''R_44_SUVR'',
      ''R_45_SUVR'', ''R_46_SUVR'', ''R_47_SUVR'', ''R_48_SUVR'', ''R_49_SUVR'',
      ''R_50_SUVR'', ''R_51_SUVR'', ''R_52_SUVR'', ''R_53_SUVR'', ''R_54_SUVR'',
      ''R_55_SUVR'', ''R_56_SUVR'', ''R_57_SUVR'', ''R_58_SUVR'', ''R_59_SUVR'',
      ''R_60_SUVR'', ''R_61_SUVR'', ''R_62_SUVR'', ''R_63_SUVR'', ''R_64_SUVR'',
      ''R_65_SUVR'', ''R_66_SUVR'', ''R_67_SUVR'', ''R_68_SUVR'', ''R_69_SUVR'',
      ''R_70_SUVR'', ''R_71_SUVR'', ''R_72_SUVR'', ''R_73_SUVR'', ''R_74_SUVR'',
      ''R_75_SUVR'', ''R_76_SUVR'', ''R_77_SUVR'', ''R_78_SUVR'', ''R_79_SUVR'',
      ''R_80_SUVR'', ''R_81_SUVR'', ''R_82_SUVR'', ''R_83_SUVR'']"
  let ?df = "\<lparr>columns = [''R_2_SUVR'', ''RID'', ''R_40_SUVR'', ''R_1_SUVR'', ''OTHER_SUVR'', ''DX''],
       rows = [[Num 12, Num 1, Num 40, Num 11, Num 99, Str ''CN'']]\<rparr>"
  have l: "83 < length ?cat" by simp
  have d: "distinct (columns ?df)" by simp
  have wf: "\<forall>r \<in> set (rows ?df). length r = length (columns ?df)" by simp
  have cat: "map FS_LABEL ?cat = ?lab"
    by (simp add: FS_LABEL_def upper_char_def)
  have "catalog_region_columns ?lab subcortical_idx ?cols = [''R_1_SUVR'', ''R_2_SUVR'']"
    by code_simp
  then have reg: "catalog_region_columns (map FS_LABEL ?cat) subcortical_idx ?cols
               = [''R_1_SUVR'', ''R_2_SUVR'']"
    by (simp only: cat)
  have ns: "filter (\<lambda>c. \<not> (\<exists>p. c = p @ ''_SUVR'')) ?cols = [''RID'', ''DX'']"
    by (simp add: endswith_iff [symmetric] endswith_def)
  from region_columns_follow_catalog_order [OF l d wf] obtain out where
    run: "tau_amy_cortical ?cat ?df = Inr out"
    and oc: "columns out = filter (\<lambda>c. \<not> (\<exists>p. c = p @ ''_SUVR'')) (columns ?df) @
               catalog_region_columns (map FS_LABEL ?cat) subcortical_idx (columns ?df)"
    and cells: "\<forall>n < length (rows ?df). \<forall>c \<in> set (columns out).
              cell_of (columns out) (rows out ! n) c = cell_of (columns ?df) (rows ?df ! n) c"
    by blast
  have c: "columns out = [''RID'', ''DX'', ''R_1_SUVR'', ''R_2_SUVR'']"
    using oc by (simp only: frame.simps reg ns append.simps)
  have "cell_of (columns out) (rows out ! 0) ''R_1_SUVR''
          = cell_of (columns ?df) (rows ?df ! 0) ''R_1_SUVR''"
    using cells c by simp
  also have "\<dots> = Num 11" by (simp add: cell_of_def)
  finally have cell: "cell_of (columns out) (rows out ! 0) ''R_1_SUVR'' = Num 11" .
  have wf': "list_all (\<lambda>r. length r = length (columns ?df)) (rows ?df)" by simp
  from l d wf' run c cell show ?thesis by blast
qed

text \<open>
  The claim as first worded has no condition on the catalog or on the table. With a
  catalog of 83 entries \<^verbatim>\<open>np.delete\<close> raises on position 83 and there is no final table;
  with a column name that occurs twice in the table, each of the two columns is
  selected twice.
\<close>

theorem region_columns_counterexample:
  "tau_amy_cortical (replicate 83 ''ctx-lh-bankssts'')
     \<lparr>columns = [''RID'', ''CTX_LH_BANKSSTS_SUVR''], rows = [[Num 1, Num 2]]\<rparr>
     = Inl IndexOutOfBounds \<and>
   tau_amy_cortical (replicate 84 ''ctx-lh-bankssts'')
     \<lparr>columns = [''RID'', ''RID''], rows = [[Num 1, Num 2]]\<rparr>
     = Inr \<lparr>columns = [''RID'', ''RID'', ''RID'', ''RID''],
            rows = [[Num 1, Num 2, Num 1, Num 2]]\<rparr>"
proof -
  have "np_delete (map FS_LABEL (replicate 83 ''ctx-lh-bankssts'')) subcortical_idx
          = Inl IndexOutOfBounds"
    by (simp add: np_delete_def subcortical_idx_def)
  then have a: "tau_amy_cortical (replicate 83 ''ctx-lh-bankssts'')
     \<lparr>columns = [''RID'', ''CTX_LH_BANKSSTS_SUVR''], rows = [[Num 1, Num 2]]\<rparr>
     = Inl IndexOutOfBounds"
    by (simp add: tau_amy_cortical_def suvr_cols_ordered_def)
  let ?df = "\<lparr>columns = [''RID'', ''RID''], rows = [[Num 1, Num 2]]\<rparr>"
  have "83 < length (replicate 84 ''ctx-lh-bankssts'')" by simp
  from suvr_cols_ordered_catalog [OF this]
  have "suvr_cols_ordered (replicate 84 ''ctx-lh-bankssts'') (columns ?df)
          = Inr (catalog_region_columns (map FS_LABEL (replicate 84 ''ctx-lh-bankssts''))
                   subcortical_idx (columns ?df))" .
  moreover have "catalog_region_columns (map FS_LABEL (replicate 84 ''ctx-lh-bankssts''))
                   subcortical_idx (columns ?df) = []"
    by (simp add: catalog_region_columns_def FS_LABEL_def filter_empty_conv)
  ultimately have s: "suvr_cols_ordered (replicate 84 ''ctx-lh-bankssts'') (columns ?df) = Inr []"
    by simp
  have ns: "non_suvr_cols (columns ?df) = [''RID'', ''RID'']"
    by (simp add: non_suvr_cols_def endswith_def)
  have i: "get_indexer [''RID'', ''RID''] ''RID'' = [0, 1]"
    by (simp add: get_indexer_def upt_rec)
  have g: "getitem ?df [''RID'', ''RID'']
             = Inr \<lparr>columns = [''RID'', ''RID'', ''RID'', ''RID''],
                    rows = [[Num 1, Num 2, Num 1, Num 2]]\<rparr>"
    by (simp add: getitem_def i)
  from g s ns have "tau_amy_cortical (replicate 84 ''ctx-lh-bankssts'') ?df
     = Inr \<lparr>columns = [''RID'', ''RID'', ''RID'', ''RID''],
            rows = [[Num 1, Num 2, Num 1, Num 2]]\<rparr>"
    by (simp add: tau_amy_cortical_def)
  with a show ?thesis by blast
qed

text \<open>
  Claim C10. Whenever the final table is produced: a column of the matched table whose
  name ends in \<open>_SUVR\<close> and is not among the catalog labels kept after the removal of
  the subcortical positions is not a column of the final table, and every column whose
  name does not end in \<open>_SUVR\<close> is a column of the final table.
\<close>

theorem unlisted_suvr_columns_dropped:
  assumes run: "tau_amy_cortical fs_region df = Inr out"
  shows "\<exists>ordered. np_delete (map FS_LABEL fs_region) subcortical_idx = Inr ordered \<and>
           (\<forall>c \<in> set (columns df).
              (\<exists>p. c = p @ ''_SUVR'') \<and> c \<notin> set ordered \<longrightarrow> c \<notin> set (columns out)) \<and>
           (\<forall>c \<in> set (columns df). \<not> (\<exists>p. c = p @ ''_SUVR'') \<longrightarrow> c \<in> set (columns out))"
proof -
  from run obtain s where s: "suvr_cols_ordered fs_region (columns df) = Inr s"
    and g: "getitem df (non_suvr_cols (columns df) @ s) = Inr out"
    by (cases "suvr_cols_ordered fs_region (columns df)") (simp_all add: tau_amy_cortical_def)
  from s obtain ordered where o: "np_delete (map FS_LABEL fs_region) subcortical_idx = Inr ordered"
    and so: "s = filter (\<lambda>c. c \<in> set (columns df)) ordered"
    by (cases "np_delete (map FS_LABEL fs_region) subcortical_idx")
       (simp_all add: suvr_cols_ordered_def)
  have "set (columns out) = {c \<in> set (columns df). c \<in> set (non_suvr_cols (columns df) @ s)}"
    using getitem_columns_general [OF g] by auto
  moreover have "set (non_suvr_cols (columns df)) =
      {c \<in> set (columns df). \<not> (\<exists>p. c = p @ ''_SUVR'')}"
    by (simp only: non_suvr_cols_def endswith_iff set_filter)
  moreover have "set s = {c \<in> set ordered. c \<in> set (columns df)}"
    by (simp only: so set_filter)
  ultimately have "set (columns out) =
      {c \<in> set (columns df). \<not> (\<exists>p. c = p @ ''_SUVR'') \<or> c \<in> set ordered}"
    by (simp only: set_append) blast
  with o show ?thesis by blast
qed

theorem unlisted_suvr_columns_dropped_witness:
  "\<exists>out ordered.
     tau_amy_cortical ([''r-0'', ''r-1'', ''r-2'', ''r-3'', ''r-4'', ''r-5'', ''r-6'', ''r-7'',
      ''r-8'', ''r-9'', ''r-10'', ''r-11'', ''r-12'', ''r-13'', ''r-14'', ''r-15'',
      ''r-16'', ''r-17'', ''r-18'', ''r-19'', ''r-20'', ''r-21'', ''r-22'', ''r-23'',
      ''r-24'', ''r-25'', ''r-26'', ''r-27'', ''r-28'', ''r-29'', ''r-30'', ''r-31'',
      ''r-32'', ''r-33'', ''r-34'', ''r-35'', ''r-36'', ''r-37'', ''r-38'', ''r-39'',
      ''r-40'', ''r-41'', ''r-42'', ''r-43'', ''r-44'', ''r-45'', ''r-46'', ''r-47'',
      ''r-48'', ''r-49'', ''r-50'', ''r-51'', ''r-52'', ''r-53'', ''r-54'', ''r-55'',
      ''r-56'', ''r-57'', ''r-58'', ''r-59'', ''r-60'', ''r-61'', ''r-62'', ''r-63'',
      ''r-64'', ''r-65'', ''r-66'', ''r-67'', ''r-68'', ''r-69'', ''r-70'', ''r-71'',
      ''r-72'', ''r-73'', ''r-74'', ''r-75'', ''r-76'', ''r-77'', ''r-78'', ''r-79'',
      ''r-80'', ''r-81'', ''r-82'', ''r-83'']) \<lparr>columns = [''R_2_SUVR'', ''RID'', ''R_40_SUVR'', ''R_1_SUVR'', ''OTHER_SUVR'', ''DX''],
       rows = [[Num 12, Num 1, Num 40, Num 11, Num 99, Str ''CN'']]\<rparr> = Inr out \<and>
     np_delete (map FS_LABEL ([''r-0'', ''r-1'', ''r-2'', ''r-3'', ''r-4'', ''r-5'', ''r-6'', ''r-7'',
      ''r-8'', ''r-9'', ''r-10'', ''r-11'', ''r-12'', ''r-13'', ''r-14'', ''r-15'',
      ''r-16'', ''r-17'', ''r-18'', ''r-19'', ''r-20'', ''r-21'', ''r-22'', ''r-23'',
      ''r-24'', ''r-25'', ''r-26'', ''r-27'', ''r-28'', ''r-29'', ''r-30'', ''r-31'',
      ''r-32'', ''r-33'', ''r-34'', ''r-35'', ''r-36'', ''r-37'', ''r-38'', ''r-39'',
      ''r-40'', ''r-41'', ''r-42'', ''r-43'', ''r-44'', ''r-45'', ''r-46'', ''r-47'',
      ''r-48'', ''r-49'', ''r-50'', ''r-51'', ''r-52'', ''r-53'', ''r-54'', ''r-55'',
      ''r-56'', ''r-57'', ''r-58'', ''r-59'', ''r-60'', ''r-61'', ''r-62'', ''r-63'',
      ''r-64'', ''r-65'', ''r-66'', ''r-67'', ''r-68'', ''r-69'', ''r-70'', ''r-71'',
      ''r-72'', ''r-73'', ''r-74'', ''r-75'', ''r-76'', ''r-77'', ''r-78'', ''r-79'',
      ''r-80'', ''r-81'', ''r-82'', ''r-83''])) subcortical_idx = Inr ordered \<and>
     ''OTHER_SUVR'' \<in> set (columns \<lparr>columns = [''R_2_SUVR'', ''RID'', ''R_40_SUVR'', ''R_1_SUVR'', ''OTHER_SUVR'', ''DX''],
       rows = [[Num 12, Num 1, Num 40, Num 11, Num 99, Str ''CN'']]\<rparr>) \<and> ''OTHER_SUVR'' \<notin> set ordered \<and>
     ''OTHER_SUVR'' \<notin> set (columns out) \<and>
     ''R_40_SUVR'' \<notin> set (columns out) \<and>
     ''RID'' \<in> set (columns out)"
proof -
  let ?cat = "[''r-0'', ''r-1'', ''r-2'', ''r-3'', ''r-4'', ''r-5'', ''r-6'', ''r-7'',
      ''r-8'', ''r-9'', ''r-10'', ''r-11'', ''r-12'', ''r-13'', ''r-14'', ''r-15'',
      ''r-16'', ''r-17'', ''r-18'', ''r-19'', ''r-20'', ''r-21'', ''r-22'', ''r-23'',
      ''r-24'', ''r-25'', ''r-26'', ''r-27'', ''r-28'', ''r-29'', ''r-30'', ''r-31'',
      ''r-32'', ''r-33'', ''r-34'', ''r-35'', ''r-36'', ''r-37'', ''r-38'', ''r-39'',
      ''r-40'', ''r-41'', ''r-42'', ''r-43'', ''r-44'', ''r-45'', ''r-46'', ''r-47'',
      ''r-48'', ''r-49'', ''r-50'', ''r-51'', ''r-52'', ''r-53'', ''r-54'', ''r-55'',
      ''r-56'', ''r-57'', ''r-58'', ''r-59'', ''r-60'', ''r-61'', ''r-62'', ''r-63'',
      ''r-64'', ''r-65'', ''r-66'', ''r-67'', ''r-68'', ''r-69'', ''r-70'', ''r-71'',
      ''r-72'', ''r-73'', ''r-74'', ''r-75'', ''r-76'', ''r-77'', ''r-78'', ''r-79'',
      ''r-80'', ''r-81'', ''r-82'', ''r-83'']"
  let ?lab = "[''R_0_SUVR'', ''R_1_SUVR'', ''R_2_SUVR'', ''R_3_SUVR'', ''R_4_SUVR'',
      ''R_5_SUVR'', ''R_6_SUVR'', ''R_7_SUVR'', ''R_8_SUVR'', ''R_9_SUVR'',
      ''R_10_SUVR'', ''R_11_SUVR'', ''R_12_SUVR'', ''R_13_SUVR'', ''R_14_SUVR'',
      ''R_15_SUVR'', ''R_16_SUVR'', ''R_17_SUVR'', ''R_18_SUVR'', ''R_19_SUVR'',
      ''R_20_SUVR'', ''R_21_SUVR'', ''R_22_SUVR'', ''R_23_SUVR'', ''R_24_SUVR'',
      ''R_25_SUVR'', ''R_26_SUVR'', ''R_27_SUVR'', ''R_28_SUVR'', ''R_29_SUVR'',
      ''R_30_SUVR'', ''R_31_SUVR'', ''R_32_SUVR'', ''R_33_SUVR'', ''R_34_SUVR'',
      ''R_35_SUVR'', ''R_36_SUVR'', ''R_37_SUVR'', ''R_38_SUVR'', ''R_39_SUVR'',
      ''R_40_SUVR'', ''R_41_SUVR'', ''R_42_SUVR'', ''R_43_SUVR'', ''R_44_SUVR'',
      ''R_45_SUVR'', ''R_46_SUVR'', ''R_47_SUVR'', ''R_48_SUVR'', ''R_49_SUVR'',
      ''R_50_SUVR'', ''R_51_SUVR'', ''R_52_SUVR'', ''R_53_SUVR'', ''R_54_SUVR'',
      ''R_55_SUVR'', ''R_56_SUVR'', ''R_57_SUVR'', ''R_58_SUVR'', ''R_59_SUVR'',
      ''R_60_SUVR'', ''R_61_SUVR'', ''R_62_SUVR'', ''R_63_SUVR'', ''R_64_SUVR'',
      ''R_65_SUVR'', ''R_66_SUVR'', ''R_67_SUVR'', ''R_68_SUVR'', ''R_69_SUVR'',
      ''R_70_SUVR'', ''R_71_SUVR'', ''R_72_SUVR'', ''R_73_SUVR'', ''R_74_SUVR'',
      ''R_75_SUVR'', ''R_76_SUVR'', ''R_77_SUVR'', ''R_78_SUVR'', ''R_79_SUVR'',
      ''R_80_SUVR'', ''R_81_SUVR'', ''R_82_SUVR'', ''R_83_SUVR'']"
  let ?df = "\<lparr>columns = [''R_2_SUVR'', ''RID'', ''R_40_SUVR'', ''R_1_SUVR'', ''OTHER_SUVR'', ''DX''],
       rows = [[Num 12, Num 1, Num 40, Num 11, Num 99, Str ''CN'']]\<rparr>"
  have l: "83 < length ?cat" by simp
  from suvr_cols_ordered_catalog [OF l] obtain s where
    s: "suvr_cols_ordered ?cat (columns ?df) = Inr s" by blast
  from suvr_cols_ordered_subset [OF s] non_suvr_cols_subset [of "columns ?df"]
  have "set (non_suvr_cols (columns ?df) @ s) \<subseteq> set (columns ?df)" by simp
  from getitem_defined [OF this] obtain out where
    "getitem ?df (non_suvr_cols (columns ?df) @ s) = Inr out" ..
  with s have run: "tau_amy_cortical ?cat ?df = Inr out" by (simp add: tau_amy_cortical_def)
  from unlisted_suvr_columns_dropped [OF run] obtain ordered where
    o: "np_delete (map FS_LABEL ?cat) subcortical_idx = Inr ordered"
    and drop: "\<forall>c \<in> set (columns ?df).
              (\<exists>p. c = p @ ''_SUVR'') \<and> c \<notin> set ordered \<longrightarrow> c \<notin> set (columns out)"
    and keep: "\<forall>c \<in> set (columns ?df). \<not> (\<exists>p. c = p @ ''_SUVR'') \<longrightarrow> c \<in> set (columns out)"
    by blast
  have ord: "ordered = map (\<lambda>i. map FS_LABEL ?cat ! i)
                 (filter (\<lambda>i. i \<notin> set subcortical_idx) [0..<length (map FS_LABEL ?cat)])"
    using o by (rule np_delete_Inr)
  have cat: "map FS_LABEL ?cat = ?lab"
    by (simp add: FS_LABEL_def upper_char_def)
  have n1: "''OTHER_SUVR'' \<notin> set ordered" unfolding ord cat by code_simp
  have n2: "''R_40_SUVR'' \<notin> set ordered" unfolding ord cat by code_simp
  have m1: "''OTHER_SUVR'' \<in> set (columns ?df)" by simp
  have m2: "''R_40_SUVR'' \<in> set (columns ?df)" by simp
  have m3: "''RID'' \<in> set (columns ?df)" by simp
  have e1: "\<exists>p. ''OTHER_SUVR'' = p @ ''_SUVR''"
    by (simp add: endswith_iff [symmetric] endswith_def)
  have e2: "\<exists>p. ''R_40_SUVR'' = p @ ''_SUVR''"
    by (simp add: endswith_iff [symmetric] endswith_def)
  have e3: "\<not> (\<exists>p. ''RID'' = p @ ''_SUVR'')"
    by (simp add: endswith_iff [symmetric] endswith_def)
  from drop m1 e1 n1 have r1: "''OTHER_SUVR'' \<notin> set (columns out)" by blast
  from drop m2 e2 n2 have r2: "''R_40_SUVR'' \<notin> set (columns out)" by blast
  from keep m3 e3 have r3: "''RID'' \<in> set (columns out)" by blast
  from run o m1 n1 r1 r2 r3 show ?thesis by blast
qed


end
